theory Spec2Isabelle
  imports Main "HOL-Library.Word"
begin

unbundle bit_operations_syntax

section \<open>Block template assembler (src/node/miner.cpp)\<close>

text \<open>
  A shallow embedding of the block assembler of \<^verbatim>\<open>src/node/miner.cpp\<close>.
  Fixed-width C++ integers are machine words: \<^verbatim>\<open>unsigned int\<close> and \<^verbatim>\<open>uint32_t\<close> are
  \<^typ>\<open>32 word\<close>, \<^verbatim>\<open>uint64_t\<close>, \<^verbatim>\<open>size_t\<close>, \<^verbatim>\<open>int64_t\<close> and \<^verbatim>\<open>CAmount\<close> are
  \<^typ>\<open>64 word\<close>; unsigned comparisons are \<open><\<close> and \<open>\<le>\<close>, signed ones are \<open><s\<close> and
  \<open>\<le>s\<close>, and a widening conversion of an unsigned value is \<^const>\<open>ucast\<close>.
  Undefined behaviour of the C++ (division by zero, an index out of range, a null
  reference, a failed \<^verbatim>\<open>assert\<close>) is a value of type \<open>fault\<close>.
\<close>

datatype fault = DivisionByZero | OutOfRange | NullDeref | AssertionFailed

type_synonym uint = "32 word"
type_synonym uint64 = "64 word"
type_synonym int64 = "64 word"
type_synonym CAmount = "64 word"

subsection \<open>Time-parameter scaling: \<^verbatim>\<open>updateMinerParams\<close>\<close>

text \<open>
  The defaults come from \<^verbatim>\<open>miner.h\<close>, which is not part of the sources at hand: they are
  parameters. So are the two methods of \<^verbatim>\<open>Consensus::Params\<close> that the function calls.
\<close>

record MinerDefaults =
  MAX_STAKE_LOOKAHEAD :: uint
  BYTECODE_TIME_BUFFER :: uint
  STAKE_TIME_BUFFER :: uint
  STAKER_POLLING_PERIOD :: uint
  STAKER_POLLING_PERIOD_MIN_DIFFICULTY :: uint
  STAKER_WAIT_FOR_WALID_BLOCK :: uint
  STAKER_WAIT_FOR_BEST_BLOCK_HEADER :: uint

record ConsensusParams =
  TimestampDownscaleFactor :: "32 word \<Rightarrow> uint"
  TargetSpacing :: "32 word \<Rightarrow> uint"

text \<open>The six namespace-level variables and the two function-local statics.\<close>

record MinerParams =
  nMaxStakeLookahead :: uint
  nBytecodeTimeBuffer :: uint
  nStakeTimeBuffer :: uint
  nMinerSleep :: uint
  nMinerWaitWalidBlock :: uint
  nMinerWaitBestBlockHeader :: uint
  timeDownscale :: uint
  timeDefault :: uint

definition initialMinerParams :: "MinerDefaults \<Rightarrow> MinerParams" where
  "initialMinerParams d =
     \<lparr> nMaxStakeLookahead = MAX_STAKE_LOOKAHEAD d,
       nBytecodeTimeBuffer = BYTECODE_TIME_BUFFER d,
       nStakeTimeBuffer = STAKE_TIME_BUFFER d,
       nMinerSleep = STAKER_POLLING_PERIOD d,
       nMinerWaitWalidBlock = STAKER_WAIT_FOR_WALID_BLOCK d,
       nMinerWaitBestBlockHeader = STAKER_WAIT_FOR_BEST_BLOCK_HEADER d,
       timeDownscale = 1,
       timeDefault = 1 \<rparr>"

definition updateMinerParams ::
  "MinerDefaults \<Rightarrow> ConsensusParams \<Rightarrow> 32 word \<Rightarrow> bool \<Rightarrow> MinerParams \<Rightarrow> fault + MinerParams"
where
  "updateMinerParams d consensusParams nHeight minDifficulty g =
     (let timeDownscaleTmp = TimestampDownscaleFactor consensusParams nHeight in
      if timeDownscale g \<noteq> timeDownscaleTmp \<and> timeDownscaleTmp = 0 then Inl DivisionByZero
      else
        let g1 =
          (if timeDownscale g \<noteq> timeDownscaleTmp then
             let g' = g\<lparr>timeDownscale := timeDownscaleTmp\<rparr>;
                 targetSpacing = TargetSpacing consensusParams nHeight;
                 g' = g'\<lparr>nMaxStakeLookahead :=
                         max (MAX_STAKE_LOOKAHEAD d div timeDownscale g') (timeDefault g')\<rparr>;
                 g' = g'\<lparr>nMaxStakeLookahead := min (nMaxStakeLookahead g') targetSpacing\<rparr>;
                 g' = g'\<lparr>nBytecodeTimeBuffer :=
                         max (BYTECODE_TIME_BUFFER d div timeDownscale g') (timeDefault g')\<rparr>;
                 g' = g'\<lparr>nStakeTimeBuffer :=
                         max (STAKE_TIME_BUFFER d div timeDownscale g') (timeDefault g')\<rparr>;
                 g' = g'\<lparr>nMinerSleep :=
                         max (STAKER_POLLING_PERIOD d div timeDownscale g') (timeDefault g')\<rparr>
             in g'\<lparr>nMinerWaitWalidBlock :=
                     max (STAKER_WAIT_FOR_WALID_BLOCK d div timeDownscale g') (timeDefault g')\<rparr>
           else g)
        in Inr (if minDifficulty \<and> nMinerSleep g1 \<noteq> STAKER_POLLING_PERIOD_MIN_DIFFICULTY d
                then g1\<lparr>nMinerSleep := STAKER_POLLING_PERIOD_MIN_DIFFICULTY d\<rparr>
                else g1))"

text \<open>A run of calls, each with its own height and difficulty flag, stopping at a fault.\<close>

fun updateMinerParams_calls ::
  "MinerDefaults \<Rightarrow> ConsensusParams \<Rightarrow> (32 word \<times> bool) list \<Rightarrow> MinerParams \<Rightarrow> fault + MinerParams"
where
  "updateMinerParams_calls d cp [] g = Inr g"
| "updateMinerParams_calls d cp ((h, m) # cs) g =
     (case updateMinerParams d cp h m g of
        Inl e \<Rightarrow> Inl e
      | Inr g' \<Rightarrow> updateMinerParams_calls d cp cs g')"

subsection \<open>Header time: \<^verbatim>\<open>UpdateTime\<close>\<close>

text \<open>
  \<^verbatim>\<open>CBlockHeader::nTime\<close> and \<^verbatim>\<open>nBits\<close> are the 32-bit unsigned fields of the
  consensus block header. \<^verbatim>\<open>GetNextWorkRequired\<close>, the median time past of the previous
  block and the adjusted wall clock are parameters.
\<close>

record CBlockHeader =
  nTime :: "32 word"
  nBits :: "32 word"

definition max_int64 :: "int64 \<Rightarrow> int64 \<Rightarrow> int64" where
  \<comment> \<open>\<^verbatim>\<open>std::max<int64_t>(a, b)\<close> is \<^verbatim>\<open>(a < b) ? b : a\<close>\<close>
  "max_int64 a b = (if a <s b then b else a)"

definition UpdateTime ::
  "bool \<Rightarrow> (CBlockHeader \<Rightarrow> 32 word) \<Rightarrow> int64 \<Rightarrow> int64 \<Rightarrow> CBlockHeader \<Rightarrow> CBlockHeader \<times> int64"
where
  "UpdateTime fPowAllowMinDifficultyBlocks GetNextWorkRequired medianTimePast adjustedTime pblock =
     (let nOldTime = (ucast (nTime pblock) :: int64);
          nNewTime = max_int64 (medianTimePast + 1) adjustedTime;
          pblock1 = (if nOldTime <s nNewTime then pblock\<lparr>nTime := ucast nNewTime\<rparr> else pblock);
          pblock2 = (if fPowAllowMinDifficultyBlocks
                     then pblock1\<lparr>nBits := GetNextWorkRequired pblock1\<rparr> else pblock1)
      in (pblock2, nNewTime - nOldTime))"

subsection \<open>Transactions, mempool entries and the assembler state\<close>

text \<open>
  Only the fields that the assembler reads or writes are kept. A \<^verbatim>\<open>CTransactionRef\<close> is a
  shared pointer, and the first slot of a fresh template holds a null one: it is an option.
  \<^verbatim>\<open>dev::u256\<close> (the gas and the gas price of a contract call) is an unsigned 256-bit
  integer whose arithmetic wraps around: \<^typ>\<open>256 word\<close>.
\<close>

record CTxOut =
  nValue :: CAmount
  scriptPubKey :: "8 word list"

record CTxIn =
  prevout_hash :: "256 word"
  prevout_n :: "32 word"
  scriptSig :: "8 word list"

record CTransaction =
  vin :: "CTxIn list"
  vout :: "CTxOut list"
  nLockTime :: "32 word"

type_synonym CTransactionRef = "CTransaction option"

type_synonym u256 = "256 word"

record QtumTransaction =
  gas :: u256
  gasPrice :: u256

record ByteCodeExecResult =
  usedGas :: uint64
  refundSender :: CAmount
  refundOutputs :: "CTxOut list"
  valueTransfers :: "CTransaction list"

text \<open>The global contract state, as far as the assembler sees it: its two trie roots.\<close>

record GlobalState =
  rootHash :: "256 word"
  rootHashUTXO :: "256 word"

text \<open>
  A \<^verbatim>\<open>CTxMemPool::txiter\<close> is modelled by a number, ordered as
  \<^verbatim>\<open>CompareIteratorByHash\<close> orders the iterators; \<open>mapTx\<close> dereferences it. The index
  \<^verbatim>\<open>ancestor_score_or_gas_price\<close> is the list \<open>score_index\<close>, best entry first.
\<close>

type_synonym txiter = nat

record CTxMemPoolEntry =
  GetSharedTx :: CTransaction
  GetTxWeight :: uint64
  GetTxSize :: uint64
  GetFee :: CAmount
  GetModifiedFee :: CAmount
  GetSigOpCost :: int64
  GetCountWithAncestors :: uint64
  GetSizeWithAncestors :: uint64
  GetModFeesWithAncestors :: CAmount
  GetSigOpCostWithAncestors :: int64

record CTxMemPool =
  mapTx :: "txiter \<Rightarrow> CTxMemPoolEntry"
  score_index :: "txiter list"
  CalculateMemPoolAncestors :: "txiter \<Rightarrow> txiter set"
  CalculateDescendants :: "txiter \<Rightarrow> txiter set"

record CTxMemPoolModifiedEntry =
  iter :: txiter
  nSizeWithAncestors :: uint64
  nModFeesWithAncestors :: CAmount
  nSigOpCostWithAncestors :: int64

text \<open>
  The members of \<^verbatim>\<open>BlockAssembler\<close>, the template it owns (\<open>vtx\<close> is
  \<^verbatim>\<open>pblocktemplate->block.vtx\<close>, which is also what \<^verbatim>\<open>pblock\<close> points to) and the
  process-wide \<^verbatim>\<open>globalState\<close>.
\<close>

record MinerState =
  nBlockMaxWeight :: uint
  nBlockWeight :: uint64
  nBlockTx :: uint64
  nBlockSigOpsCost :: uint64
  nFees :: CAmount
  inBlock :: "txiter set"
  nHeight :: "32 word"
  m_lock_time_cutoff :: int64
  nTimeLimit :: "32 word"
  originalRewardTx :: CTransaction
  bceResult :: ByteCodeExecResult
  softBlockGasLimit :: uint64
  hardBlockGasLimit :: uint64
  txGasLimit :: uint64
  vtx :: "CTransactionRef list"
  vTxFees :: "CAmount list"
  vTxSigOpsCost :: "int64 list"
  globalState :: GlobalState

text \<open>
  What the assembler calls but does not define: consensus constants and functions, the
  fee rate, the mempool comparator, the clock, the operator flag and the contract VM.
  \<open>'vm\<close> is the internal state of a \<^verbatim>\<open>ByteCodeExec\<close> object between
  \<^verbatim>\<open>performByteCode\<close> and \<^verbatim>\<open>processingResults\<close>. Both may change the global
  contract state; \<^verbatim>\<open>extractionQtumTransactions\<close> only reads the transaction, the chain
  state and the block, and returns the contract calls or fails.
\<close>

record 'vm Env =
  WITNESS_SCALE_FACTOR :: uint64
  dgpMaxBlockSigOps :: uint
  dgpMaxBlockWeight :: uint
  GetBlockSubsidy :: "32 word \<Rightarrow> CAmount"
  GetLegacySigOpCount :: "CTransaction \<Rightarrow> uint"
  GetTransactionWeight :: "CTransaction \<Rightarrow> int64"
  IsFinalTx :: "CTransaction \<Rightarrow> 32 word \<Rightarrow> int64 \<Rightarrow> bool"
  IsProofOfStake :: "CTransactionRef list \<Rightarrow> bool"
  blockMinFeeRate_GetFee :: "uint64 \<Rightarrow> CAmount"
  CompareModifiedEntry :: "CTxMemPoolModifiedEntry \<Rightarrow> CTxMemPoolModifiedEntry \<Rightarrow> bool"
  GetAdjustedTimeSeconds :: int64
  disablecontractstaking :: bool
  extractionQtumTransactions :: "CTransaction \<Rightarrow> CTransactionRef list \<Rightarrow> QtumTransaction list option"
  performByteCode ::
    "CTransactionRef list \<Rightarrow> QtumTransaction list \<Rightarrow> uint64 \<Rightarrow> GlobalState \<Rightarrow> bool \<times> 'vm \<times> GlobalState"
  processingResults :: "'vm \<Rightarrow> GlobalState \<Rightarrow> bool \<times> ByteCodeExecResult \<times> GlobalState"

subsection \<open>\<^verbatim>\<open>resetBlock\<close>, \<^verbatim>\<open>TestPackage\<close>, \<^verbatim>\<open>TestPackageTransactions\<close>, \<^verbatim>\<open>AddToBlock\<close>\<close>

definition resetBlock :: "MinerState \<Rightarrow> MinerState" where
  "resetBlock s =
     s\<lparr>inBlock := {}, nBlockWeight := 4000, nBlockSigOpsCost := 400, nBlockTx := 0, nFees := 0\<rparr>"

definition TestPackage :: "'vm Env \<Rightarrow> MinerState \<Rightarrow> uint64 \<Rightarrow> int64 \<Rightarrow> bool" where
  "TestPackage env s packageSize packageSigOpsCost =
     (if nBlockWeight s + WITNESS_SCALE_FACTOR env * packageSize \<ge> ucast (nBlockMaxWeight s)
      then False
      else if nBlockSigOpsCost s + packageSigOpsCost \<ge> ucast (dgpMaxBlockSigOps env)
      then False
      else True)"

definition TestPackageTransactions :: "'vm Env \<Rightarrow> CTxMemPool \<Rightarrow> MinerState \<Rightarrow> txiter set \<Rightarrow> bool" where
  "TestPackageTransactions env mempool s package =
     (\<forall>it \<in> package.
        IsFinalTx env (GetSharedTx (mapTx mempool it)) (nHeight s) (m_lock_time_cutoff s))"

definition onlyUnconfirmed :: "MinerState \<Rightarrow> txiter set \<Rightarrow> txiter set" where
  "onlyUnconfirmed s testSet = Set.filter (\<lambda>it. it \<notin> inBlock s) testSet"

definition AddToBlock :: "CTxMemPool \<Rightarrow> txiter \<Rightarrow> MinerState \<Rightarrow> MinerState" where
  "AddToBlock mempool it s =
     (let e = mapTx mempool it in
      s\<lparr>vtx := vtx s @ [Some (GetSharedTx e)],
        vTxFees := vTxFees s @ [GetFee e],
        vTxSigOpsCost := vTxSigOpsCost s @ [GetSigOpCost e],
        nBlockWeight := nBlockWeight s + GetTxWeight e,
        nBlockTx := nBlockTx s + 1,
        nBlockSigOpsCost := nBlockSigOpsCost s + GetSigOpCost e,
        nFees := nFees s + GetFee e,
        inBlock := insert it (inBlock s)\<rparr>)"

subsection \<open>\<^verbatim>\<open>RebuildRefundTransaction\<close>\<close>

definition CTxOut_null :: CTxOut where
  "CTxOut_null = \<lparr>nValue = - 1, scriptPubKey = []\<rparr>"

definition resize :: "CTxOut list \<Rightarrow> nat \<Rightarrow> CTxOut list" where
  \<comment> \<open>\<^verbatim>\<open>std::vector::resize\<close>: truncate, or pad with default-constructed outputs\<close>
  "resize v n = (if n \<le> length v then take n v else v @ replicate (n - length v) CTxOut_null)"

text \<open>The loop \<^verbatim>\<open>for (CTxOut& vout : outs) { contrTx.vout[i] = vout; i++; }\<close>.\<close>

fun assign_outputs :: "CTxOut list \<Rightarrow> nat \<Rightarrow> CTxOut list \<Rightarrow> fault + CTxOut list" where
  "assign_outputs v i [] = Inr v"
| "assign_outputs v i (x # xs) =
     (if i < length v then assign_outputs (v[i := x]) (Suc i) xs else Inl OutOfRange)"

definition append_refund_outputs :: "CTransaction \<Rightarrow> CTxOut list \<Rightarrow> fault + CTransaction" where
  "append_refund_outputs contrTx outs =
     (let i = length (vout contrTx);
          contrTx1 = contrTx\<lparr>vout := resize (vout contrTx) (length (vout contrTx) + length outs)\<rparr>
      in case assign_outputs (vout contrTx1) i outs of
           Inl e \<Rightarrow> Inl e
         | Inr v \<Rightarrow> Inr (contrTx1\<lparr>vout := v\<rparr>))"

definition RebuildRefundTransaction :: "'vm Env \<Rightarrow> MinerState \<Rightarrow> fault + MinerState" where
  "RebuildRefundTransaction env s =
     (let refundtx = (if IsProofOfStake env (vtx s) then 1 else 0 :: nat);
          contrTx = originalRewardTx s
      in if \<not> refundtx < length (vout contrTx) then Inl OutOfRange
         else
           let o1 = (vout contrTx ! refundtx)\<lparr>nValue := nFees s + GetBlockSubsidy env (nHeight s)\<rparr>;
               o2 = o1\<lparr>nValue := nValue o1 - refundSender (bceResult s)\<rparr>;
               contrTx1 = contrTx\<lparr>vout := (vout contrTx)[refundtx := o2]\<rparr>
           in case append_refund_outputs contrTx1 (refundOutputs (bceResult s)) of
                Inl e \<Rightarrow> Inl e
              | Inr contrTx2 \<Rightarrow>
                  if \<not> refundtx < length (vtx s) then Inl OutOfRange
                  else Inr (s\<lparr>vtx := (vtx s)[refundtx := Some contrTx2]\<rparr>))"

subsection \<open>\<^verbatim>\<open>AttemptToAddContractToBlock\<close>\<close>

definition deref_vtx :: "CTransactionRef list \<Rightarrow> nat \<Rightarrow> fault + CTransaction" where
  \<comment> \<open>\<^verbatim>\<open>*pblock->vtx[i]\<close>\<close>
  "deref_vtx v i =
     (if i < length v then (case v ! i of None \<Rightarrow> Inl NullDeref | Some t \<Rightarrow> Inr t)
      else Inl OutOfRange)"

text \<open>
  The loop over the extracted contract calls: \<open>True\<close> when it runs to its end, \<open>False\<close>
  when one of its three tests returns from the function.
\<close>

fun check_gas :: "MinerState \<Rightarrow> uint64 \<Rightarrow> u256 \<Rightarrow> QtumTransaction list \<Rightarrow> bool" where
  "check_gas s minGasPrice txGas [] = True"
| "check_gas s minGasPrice txGas (qtumTransaction # rest) =
     (let txGas1 = txGas + gas qtumTransaction in
      if txGas1 > ucast (txGasLimit s) then False
      else if ucast (usedGas (bceResult s)) + gas qtumTransaction > ucast (softBlockGasLimit s)
      then False
      else if gasPrice qtumTransaction < ucast minGasPrice then False
      else check_gas s minGasPrice txGas1 rest)"

text \<open>The value transfers, applied to the local copies of the counters.\<close>

fun local_valueTransfers ::
  "'vm Env \<Rightarrow> CTransaction list \<Rightarrow> uint64 \<times> uint64 \<Rightarrow> uint64 \<times> uint64"
where
  "local_valueTransfers env [] (w, c) = (w, c)"
| "local_valueTransfers env (t # ts) (w, c) =
     local_valueTransfers env ts
       (w + GetTransactionWeight env t, c + ucast (GetLegacySigOpCount env t))"

text \<open>The value transfers, appended to the block.\<close>

fun commit_valueTransfers :: "'vm Env \<Rightarrow> CTransaction list \<Rightarrow> MinerState \<Rightarrow> MinerState" where
  "commit_valueTransfers env [] s = s"
| "commit_valueTransfers env (t # ts) s =
     commit_valueTransfers env ts
       (s\<lparr>vtx := vtx s @ [Some t],
          nBlockWeight := nBlockWeight s + GetTransactionWeight env t,
          nBlockSigOpsCost := nBlockSigOpsCost s + ucast (GetLegacySigOpCount env t),
          nBlockTx := nBlockTx s + 1\<rparr>)"

definition restore_roots :: "256 word \<Rightarrow> 256 word \<Rightarrow> MinerState \<Rightarrow> MinerState" where
  \<comment> \<open>\<^verbatim>\<open>globalState->setRoot(oldHashStateRoot); globalState->setRootUTXO(oldHashUTXORoot);\<close>\<close>
  "restore_roots oldHashStateRoot oldHashUTXORoot s =
     s\<lparr>globalState :=
         (globalState s)\<lparr>rootHash := oldHashStateRoot, rootHashUTXO := oldHashUTXORoot\<rparr>\<rparr>"

text \<open>The last part of the function, from ``apply local bytecode to global bytecode state''.\<close>

definition commit_contract ::
  "'vm Env \<Rightarrow> CTxMemPool \<Rightarrow> txiter \<Rightarrow> nat \<Rightarrow> ByteCodeExecResult \<Rightarrow> MinerState
     \<Rightarrow> fault + (bool \<times> MinerState)"
where
  "commit_contract env mempool it proofTx testExecResult s =
     (let e = mapTx mempool it;
          s1 = s\<lparr>bceResult := (bceResult s)
                 \<lparr>usedGas := usedGas (bceResult s) + usedGas testExecResult,
                  refundSender := refundSender (bceResult s) + refundSender testExecResult,
                  refundOutputs := refundOutputs (bceResult s) @ refundOutputs testExecResult,
                  valueTransfers := valueTransfers testExecResult\<rparr>\<rparr>;
          s2 = s1\<lparr>vtx := vtx s1 @ [Some (GetSharedTx e)],
                  vTxFees := vTxFees s1 @ [GetFee e],
                  vTxSigOpsCost := vTxSigOpsCost s1 @ [GetSigOpCost e],
                  nBlockWeight := nBlockWeight s1 + GetTxWeight e,
                  nBlockTx := nBlockTx s1 + 1,
                  nBlockSigOpsCost := nBlockSigOpsCost s1 + GetSigOpCost e,
                  nFees := nFees s1 + GetFee e,
                  inBlock := insert it (inBlock s1)\<rparr>;
          s3 = commit_valueTransfers env (valueTransfers (bceResult s2)) s2
      in case deref_vtx (vtx s3) proofTx of
           Inl f \<Rightarrow> Inl f
         | Inr oldProof \<Rightarrow>
             (case RebuildRefundTransaction env
                     (s3\<lparr>nBlockSigOpsCost :=
                           nBlockSigOpsCost s3 - ucast (GetLegacySigOpCount env oldProof)\<rparr>) of
                Inl f \<Rightarrow> Inl f
              | Inr s4 \<Rightarrow>
                  (case deref_vtx (vtx s4) proofTx of
                     Inl f \<Rightarrow> Inl f
                   | Inr newProof \<Rightarrow>
                       Inr (True,
                            s4\<lparr>nBlockSigOpsCost :=
                                  nBlockSigOpsCost s4 + ucast (GetLegacySigOpCount env newProof),
                               bceResult := (bceResult s4)\<lparr>valueTransfers := []\<rparr>\<rparr>))))"

text \<open>
  The part after the VM has run: the second gas test, the costs on local copies of the
  counters, the size test, and the commit.
\<close>

definition after_execution ::
  "'vm Env \<Rightarrow> CTxMemPool \<Rightarrow> txiter \<Rightarrow> 256 word \<Rightarrow> 256 word \<Rightarrow> ByteCodeExecResult \<Rightarrow> MinerState
     \<Rightarrow> fault + (bool \<times> MinerState)"
where
  "after_execution env mempool it oldHashStateRoot oldHashUTXORoot testExecResult s =
     (if usedGas (bceResult s) + usedGas testExecResult > softBlockGasLimit s
      then Inr (False, restore_roots oldHashStateRoot oldHashUTXORoot s)
      else
        let e = mapTx mempool it;
            (nBlockWeight_l, nBlockSigOpsCost_l) =
               local_valueTransfers env (valueTransfers testExecResult)
                 (nBlockWeight s + GetTxWeight e, nBlockSigOpsCost s + GetSigOpCost e);
            proofTx = (if IsProofOfStake env (vtx s) then 1 else 0 :: nat)
        in case deref_vtx (vtx s) proofTx of
             Inl f \<Rightarrow> Inl f
           | Inr oldProof \<Rightarrow>
               (case append_refund_outputs oldProof (refundOutputs testExecResult) of
                  Inl f \<Rightarrow> Inl f
                | Inr contrTx \<Rightarrow>
                    let nBlockSigOpsCost_l =
                          nBlockSigOpsCost_l - ucast (GetLegacySigOpCount env oldProof)
                            + ucast (GetLegacySigOpCount env contrTx)
                    in if nBlockSigOpsCost_l * WITNESS_SCALE_FACTOR env > ucast (dgpMaxBlockSigOps env)
                          \<or> nBlockWeight_l > ucast (dgpMaxBlockWeight env)
                       then Inr (False, restore_roots oldHashStateRoot oldHashUTXORoot s)
                       else commit_contract env mempool it proofTx testExecResult s))"

text \<open>
  \<open>nBytecodeTimeBuffer\<close> is the namespace-level variable of that name. The result is a
  fault, or the returned flag with the state the call leaves.
\<close>

definition AttemptToAddContractToBlock ::
  "'vm Env \<Rightarrow> CTxMemPool \<Rightarrow> uint \<Rightarrow> txiter \<Rightarrow> uint64 \<Rightarrow> MinerState \<Rightarrow> fault + (bool \<times> MinerState)"
where
  "AttemptToAddContractToBlock env mempool nBytecodeTimeBuffer_v it minGasPrice s =
     (if nTimeLimit s \<noteq> 0
         \<and> (ucast (nTimeLimit s - nBytecodeTimeBuffer_v) :: int64) \<le>s GetAdjustedTimeSeconds env
      then Inr (False, s)
      else if disablecontractstaking env then Inr (False, s)
      else
        let oldHashStateRoot = rootHash (globalState s);
            oldHashUTXORoot = rootHashUTXO (globalState s)
        in case extractionQtumTransactions env (GetSharedTx (mapTx mempool it)) (vtx s) of
             None \<Rightarrow> Inr (False, s)
           | Some qtumTransactions \<Rightarrow>
               if \<not> check_gas s minGasPrice 0 qtumTransactions then Inr (False, s)
               else
                 (case performByteCode env (vtx s) qtumTransactions (hardBlockGasLimit s)
                         (globalState s) of
                    (ok, exec, g1) \<Rightarrow>
                      if \<not> ok
                      then Inr (False,
                                restore_roots oldHashStateRoot oldHashUTXORoot (s\<lparr>globalState := g1\<rparr>))
                      else
                        (case processingResults env exec g1 of
                           (ok2, testExecResult, g2) \<Rightarrow>
                             if \<not> ok2
                             then Inr (False,
                                       restore_roots oldHashStateRoot oldHashUTXORoot
                                         (s\<lparr>globalState := g2\<rparr>))
                             else after_execution env mempool it oldHashStateRoot oldHashUTXORoot
                                    testExecResult (s\<lparr>globalState := g2\<rparr>))))"

subsection \<open>The modified-entry overlay\<close>

text \<open>
  \<^verbatim>\<open>indexed_modified_transaction_set\<close> is a list in the order of its score index, best
  entry first, with at most one entry for a \<open>txiter\<close>. The comparator is the parameter
  \<open>CompareModifiedEntry\<close>: \<open>CompareModifiedEntry env a b\<close> says that \<open>a\<close> comes before
  \<open>b\<close>.
\<close>

type_synonym indexed_modified_transaction_set = "CTxMemPoolModifiedEntry list"

text \<open>
  Modelled from the spec: the constructor of \<^verbatim>\<open>CTxMemPoolModifiedEntry\<close>, declared in
  \<^verbatim>\<open>miner.h\<close>: ``a shadow record initialized from \<open>d\<close>'s current mempool stats''.
\<close>

definition CTxMemPoolModifiedEntry_of :: "CTxMemPool \<Rightarrow> txiter \<Rightarrow> CTxMemPoolModifiedEntry" where
  "CTxMemPoolModifiedEntry_of mempool it =
     \<lparr> iter = it,
       nSizeWithAncestors = GetSizeWithAncestors (mapTx mempool it),
       nModFeesWithAncestors = GetModFeesWithAncestors (mapTx mempool it),
       nSigOpCostWithAncestors = GetSigOpCostWithAncestors (mapTx mempool it) \<rparr>"

text \<open>
  Modelled from the spec: the functor \<^verbatim>\<open>update_for_parent_inclusion\<close>, declared in
  \<^verbatim>\<open>miner.h\<close>: ``subtract the included ancestor's contribution from the existing shadow
  record''.
\<close>

definition update_for_parent_inclusion ::
  "CTxMemPool \<Rightarrow> txiter \<Rightarrow> CTxMemPoolModifiedEntry \<Rightarrow> CTxMemPoolModifiedEntry"
where
  "update_for_parent_inclusion mempool it e =
     e\<lparr> nModFeesWithAncestors := nModFeesWithAncestors e - GetModifiedFee (mapTx mempool it),
        nSizeWithAncestors := nSizeWithAncestors e - GetTxSize (mapTx mempool it),
        nSigOpCostWithAncestors := nSigOpCostWithAncestors e - GetSigOpCost (mapTx mempool it) \<rparr>"

definition mod_count :: "indexed_modified_transaction_set \<Rightarrow> txiter \<Rightarrow> bool" where
  "mod_count m it = (it \<in> iter ` set m)"

definition mod_find :: "indexed_modified_transaction_set \<Rightarrow> txiter \<Rightarrow> CTxMemPoolModifiedEntry option" where
  "mod_find m it = find (\<lambda>e. iter e = it) m"

definition mod_erase :: "txiter \<Rightarrow> indexed_modified_transaction_set \<Rightarrow> indexed_modified_transaction_set" where
  "mod_erase it m = filter (\<lambda>e. iter e \<noteq> it) m"

text \<open>
  Modelled from the spec: the operations of the container, declared in \<^verbatim>\<open>miner.h\<close>:
  ``insert/update, erase-by-identity, ordered iteration by ancestor-score''. An entry goes
  after the entries that it does not come before, as in an ordered index, and an entry that
  is modified takes its new place in the order.
\<close>

fun mod_insert ::
  "'vm Env \<Rightarrow> CTxMemPoolModifiedEntry \<Rightarrow> indexed_modified_transaction_set
     \<Rightarrow> indexed_modified_transaction_set"
where
  "mod_insert env e [] = [e]"
| "mod_insert env e (x # xs) =
     (if CompareModifiedEntry env e x then e # x # xs else x # mod_insert env e xs)"

definition mod_modify ::
  "'vm Env \<Rightarrow> txiter \<Rightarrow> (CTxMemPoolModifiedEntry \<Rightarrow> CTxMemPoolModifiedEntry)
     \<Rightarrow> indexed_modified_transaction_set \<Rightarrow> indexed_modified_transaction_set"
where
  "mod_modify env it f m =
     (case mod_find m it of
        None \<Rightarrow> m
      | Some e \<Rightarrow> mod_insert env (f e) (mod_erase it m))"

subsection \<open>\<^verbatim>\<open>UpdatePackagesForAdded\<close> and \<^verbatim>\<open>SortForBlock\<close>\<close>

text \<open>A \<^verbatim>\<open>setEntries\<close> is visited in the order of its elements.\<close>

fun update_descendants ::
  "'vm Env \<Rightarrow> CTxMemPool \<Rightarrow> txiter set \<Rightarrow> txiter \<Rightarrow> txiter list
     \<Rightarrow> 32 word \<times> indexed_modified_transaction_set \<Rightarrow> 32 word \<times> indexed_modified_transaction_set"
where
  "update_descendants env mempool alreadyAdded it [] acc = acc"
| "update_descendants env mempool alreadyAdded it (desc # rest) (n, m) =
     (if desc \<in> alreadyAdded then update_descendants env mempool alreadyAdded it rest (n, m)
      else
        update_descendants env mempool alreadyAdded it rest
          (n + 1,
           case mod_find m desc of
             None \<Rightarrow>
               mod_insert env
                 (update_for_parent_inclusion mempool it (CTxMemPoolModifiedEntry_of mempool desc)) m
           | Some e \<Rightarrow> mod_modify env desc (update_for_parent_inclusion mempool it) m))"

fun update_packages ::
  "'vm Env \<Rightarrow> CTxMemPool \<Rightarrow> txiter set \<Rightarrow> txiter list
     \<Rightarrow> 32 word \<times> indexed_modified_transaction_set \<Rightarrow> 32 word \<times> indexed_modified_transaction_set"
where
  "update_packages env mempool alreadyAdded [] acc = acc"
| "update_packages env mempool alreadyAdded (it # rest) acc =
     update_packages env mempool alreadyAdded rest
       (update_descendants env mempool alreadyAdded it
          (sorted_list_of_set (CalculateDescendants mempool it)) acc)"

definition UpdatePackagesForAdded ::
  "'vm Env \<Rightarrow> CTxMemPool \<Rightarrow> txiter set \<Rightarrow> indexed_modified_transaction_set
     \<Rightarrow> 32 word \<times> indexed_modified_transaction_set"
where
  "UpdatePackagesForAdded env mempool alreadyAdded mapModifiedTx_v =
     update_packages env mempool alreadyAdded (sorted_list_of_set alreadyAdded) (0, mapModifiedTx_v)"

text \<open>
  Modelled from the spec: the comparator \<^verbatim>\<open>CompareTxIterByAncestorCount\<close>, declared outside
  \<^verbatim>\<open>miner.cpp\<close>, by which \<^verbatim>\<open>SortForBlock\<close> sorts: ``Sort package by ancestor-count
  ascending''. It is given by its key; entries with equal counts stay in the order of the
  set.
\<close>

definition CompareTxIterByAncestorCount_key :: "CTxMemPool \<Rightarrow> txiter \<Rightarrow> uint64" where
  "CompareTxIterByAncestorCount_key mempool = (\<lambda>it. GetCountWithAncestors (mapTx mempool it))"

definition SortForBlock :: "CTxMemPool \<Rightarrow> txiter set \<Rightarrow> txiter list" where
  "SortForBlock mempool package =
     sort_key (CompareTxIterByAncestorCount_key mempool) (sorted_list_of_set package)"

subsection \<open>\<^verbatim>\<open>addPackageTxs\<close>\<close>

text \<open>The local variables of the function that live across iterations, and the assembler.\<close>

record SelectionState =
  mi :: nat
  mapModifiedTx :: indexed_modified_transaction_set
  failedTx :: "txiter set"
  nConsecutiveFailed :: int64
  nPackagesSelected :: "32 word"
  nDescendantsUpdated :: "32 word"
  assembler :: MinerState

text \<open>How an iteration of the \<^verbatim>\<open>while\<close> loop ends.\<close>

datatype flow = Continue SelectionState | Break SelectionState | Return SelectionState | Fault fault

definition loop_condition :: "CTxMemPool \<Rightarrow> SelectionState \<Rightarrow> bool" where
  "loop_condition mempool st = (mi st < length (score_index mempool) \<or> mapModifiedTx st \<noteq> [])"

definition stale :: "CTxMemPool \<Rightarrow> SelectionState \<Rightarrow> bool" where
  "stale mempool st =
     (mi st < length (score_index mempool) \<and>
      (let it = score_index mempool ! mi st in
       mod_count (mapModifiedTx st) it \<or> it \<in> inBlock (assembler st) \<or> it \<in> failedTx st))"

text \<open>
  The entry to evaluate, the best overlay entry when that is the one chosen
  (\<^verbatim>\<open>fUsingModified\<close>), and the cursor \<^verbatim>\<open>mi\<close> afterwards.
\<close>

definition choose_candidate ::
  "'vm Env \<Rightarrow> CTxMemPool \<Rightarrow> SelectionState \<Rightarrow> fault + (txiter \<times> CTxMemPoolModifiedEntry option \<times> nat)"
where
  "choose_candidate env mempool st =
     (if \<not> mi st < length (score_index mempool) then
        (case mapModifiedTx st of
           [] \<Rightarrow> Inl OutOfRange
         | modit # _ \<Rightarrow> Inr (iter modit, Some modit, mi st))
      else
        let it = score_index mempool ! mi st in
        case mapModifiedTx st of
          [] \<Rightarrow> Inr (it, None, mi st + 1)
        | modit # _ \<Rightarrow>
            if CompareModifiedEntry env modit (CTxMemPoolModifiedEntry_of mempool it)
            then Inr (iter modit, Some modit, mi st)
            else Inr (it, None, mi st + 1))"

definition package_stats ::
  "CTxMemPool \<Rightarrow> txiter \<Rightarrow> CTxMemPoolModifiedEntry option \<Rightarrow> uint64 \<times> CAmount \<times> int64"
where
  "package_stats mempool it modit =
     (case modit of
        None \<Rightarrow>
          (GetSizeWithAncestors (mapTx mempool it), GetModFeesWithAncestors (mapTx mempool it),
           GetSigOpCostWithAncestors (mapTx mempool it))
      | Some m \<Rightarrow> (nSizeWithAncestors m, nModFeesWithAncestors m, nSigOpCostWithAncestors m))"

definition evict_failed ::
  "txiter \<Rightarrow> CTxMemPoolModifiedEntry option \<Rightarrow> SelectionState \<Rightarrow> SelectionState"
where
  \<comment> \<open>\<^verbatim>\<open>if (fUsingModified) { mapModifiedTx.erase(modit); failedTx.insert(iter); }\<close>,
      where \<^verbatim>\<open>modit\<close> is the first entry of the overlay\<close>
  "evict_failed it modit st =
     (case modit of
        None \<Rightarrow> st
      | Some _ \<Rightarrow> st\<lparr>mapModifiedTx := tl (mapModifiedTx st), failedTx := insert it (failedTx st)\<rparr>)"

text \<open>The loop over \<^verbatim>\<open>sortedEntries\<close>.\<close>

fun add_sorted :: "CTxMemPool \<Rightarrow> txiter list \<Rightarrow> SelectionState \<Rightarrow> SelectionState" where
  "add_sorted mempool [] st = st"
| "add_sorted mempool (it # rest) st =
     add_sorted mempool rest
       (st\<lparr>assembler := AddToBlock mempool it (assembler st),
           mapModifiedTx := mod_erase it (mapModifiedTx st)\<rparr>)"

definition package_of :: "CTxMemPool \<Rightarrow> MinerState \<Rightarrow> txiter \<Rightarrow> txiter set" where
  \<comment> \<open>\<^verbatim>\<open>CalculateMemPoolAncestors\<close>, \<^verbatim>\<open>onlyUnconfirmed(ancestors)\<close>,
      \<^verbatim>\<open>ancestors.insert(iter)\<close>\<close>
  "package_of mempool s it = insert it (onlyUnconfirmed s (CalculateMemPoolAncestors mempool it))"

definition include_package ::
  "'vm Env \<Rightarrow> CTxMemPool \<Rightarrow> txiter set \<Rightarrow> SelectionState \<Rightarrow> SelectionState"
where
  "include_package env mempool ancestors st =
     (let st1 = st\<lparr>nConsecutiveFailed := 0\<rparr>;
          sortedEntries = SortForBlock mempool ancestors;
          st2 = add_sorted mempool sortedEntries st1;
          st3 = st2\<lparr>nPackagesSelected := nPackagesSelected st2 + 1\<rparr>;
          (n, m) = UpdatePackagesForAdded env mempool ancestors (mapModifiedTx st3)
      in st3\<lparr>nDescendantsUpdated := nDescendantsUpdated st3 + n, mapModifiedTx := m\<rparr>)"

definition addPackageTxs_body :: "'vm Env \<Rightarrow> CTxMemPool \<Rightarrow> SelectionState \<Rightarrow> flow" where
  "addPackageTxs_body env mempool st =
     (if stale mempool st then Continue (st\<lparr>mi := mi st + 1\<rparr>)
      else
        case choose_candidate env mempool st of
          Inl f \<Rightarrow> Fault f
        | Inr (it, modit, mi1) \<Rightarrow>
            let st1 = st\<lparr>mi := mi1\<rparr> in
            if it \<in> inBlock (assembler st1) then Fault AssertionFailed
            else
              let (packageSize, packageFees, packageSigOpsCost) = package_stats mempool it modit in
              if packageFees <s blockMinFeeRate_GetFee env packageSize then Return st1
              else if \<not> TestPackage env (assembler st1) packageSize packageSigOpsCost then
                let st2 = evict_failed it modit st1;
                    st3 = st2\<lparr>nConsecutiveFailed := nConsecutiveFailed st2 + 1\<rparr>
                in if 1000 <s nConsecutiveFailed st3
                      \<and> nBlockWeight (assembler st3) > ucast (nBlockMaxWeight (assembler st3) - 4000)
                   then Break st3
                   else Continue st3
              else
                let ancestors = package_of mempool (assembler st1) it in
                if \<not> TestPackageTransactions env mempool (assembler st1) ancestors
                then Continue (evict_failed it modit st1)
                else Continue (include_package env mempool ancestors st1))"

text \<open>
  The loop, with fuel: \<open>None\<close> when the fuel does not suffice, else the state at the end or
  the fault that stopped it.
\<close>

fun addPackageTxs_loop ::
  "nat \<Rightarrow> 'vm Env \<Rightarrow> CTxMemPool \<Rightarrow> SelectionState \<Rightarrow> (fault + SelectionState) option"
where
  "addPackageTxs_loop 0 env mempool st = None"
| "addPackageTxs_loop (Suc n) env mempool st =
     (if loop_condition mempool st then
        (case addPackageTxs_body env mempool st of
           Continue st1 \<Rightarrow> addPackageTxs_loop n env mempool st1
         | Break st1 \<Rightarrow> Some (Inr st1)
         | Return st1 \<Rightarrow> Some (Inr st1)
         | Fault f \<Rightarrow> Some (Inl f))
      else Some (Inr st))"

definition selection_start :: "32 word \<Rightarrow> 32 word \<Rightarrow> MinerState \<Rightarrow> SelectionState" where
  "selection_start nPackagesSelected_v nDescendantsUpdated_v s =
     \<lparr> mi = 0, mapModifiedTx = [], failedTx = {}, nConsecutiveFailed = 0,
       nPackagesSelected = nPackagesSelected_v, nDescendantsUpdated = nDescendantsUpdated_v,
       assembler = s \<rparr>"

definition addPackageTxs ::
  "nat \<Rightarrow> 'vm Env \<Rightarrow> CTxMemPool \<Rightarrow> 32 word \<Rightarrow> 32 word \<Rightarrow> MinerState
     \<Rightarrow> (fault + SelectionState) option"
where
  "addPackageTxs fuel env mempool nPackagesSelected_v nDescendantsUpdated_v s =
     addPackageTxs_loop fuel env mempool
       (selection_start nPackagesSelected_v nDescendantsUpdated_v s)"

text \<open>The states at the head of the loop, from a given first one.\<close>

inductive iterations :: "'vm Env \<Rightarrow> CTxMemPool \<Rightarrow> SelectionState \<Rightarrow> SelectionState \<Rightarrow> bool"
  for env mempool st0
where
  iterations_start: "iterations env mempool st0 st0"
| iterations_step:
    "iterations env mempool st0 st \<Longrightarrow> loop_condition mempool st
       \<Longrightarrow> addPackageTxs_body env mempool st = Continue st1
       \<Longrightarrow> iterations env mempool st0 st1"

subsection \<open>Notions used to state the properties\<close>

text \<open>
  When an iteration gets as far as including a package: the cursor is not stale, the
  candidate is \<open>it\<close> (from the overlay when \<open>modit\<close> is not \<open>None\<close>), the assertion
  holds, and the fee, fit and finality tests pass.
\<close>

definition selects ::
  "'vm Env \<Rightarrow> CTxMemPool \<Rightarrow> SelectionState \<Rightarrow> txiter \<Rightarrow> CTxMemPoolModifiedEntry option \<Rightarrow> nat \<Rightarrow> bool"
where
  "selects env mempool st it modit mi1 =
     (\<not> stale mempool st \<and> choose_candidate env mempool st = Inr (it, modit, mi1)
      \<and> it \<notin> inBlock (assembler st)
      \<and> (case package_stats mempool it modit of
            (packageSize, packageFees, packageSigOpsCost) \<Rightarrow>
              \<not> packageFees <s blockMinFeeRate_GetFee env packageSize
              \<and> TestPackage env (assembler st) packageSize packageSigOpsCost)
      \<and> TestPackageTransactions env mempool (assembler st)
           (package_of mempool (assembler st) it))"

text \<open>
  When an iteration gets as far as the fit test and fails it.
\<close>

definition fails_fit ::
  "'vm Env \<Rightarrow> CTxMemPool \<Rightarrow> SelectionState \<Rightarrow> txiter \<Rightarrow> CTxMemPoolModifiedEntry option \<Rightarrow> nat \<Rightarrow> bool"
where
  "fails_fit env mempool st it modit mi1 =
     (\<not> stale mempool st \<and> choose_candidate env mempool st = Inr (it, modit, mi1)
      \<and> it \<notin> inBlock (assembler st)
      \<and> (case package_stats mempool it modit of
            (packageSize, packageFees, packageSigOpsCost) \<Rightarrow>
              \<not> packageFees <s blockMinFeeRate_GetFee env packageSize
              \<and> \<not> TestPackage env (assembler st) packageSize packageSigOpsCost))"

text \<open>
  What the mempool guarantees about the sets it computes, for the entries of its index:
  they stay within the index, the ancestors of an ancestor are ancestors, and an ancestor
  has a smaller ancestor count (``If a transaction A depends on transaction B, then A's
  ancestor count must be greater than B's'').
\<close>

definition mempool_wf :: "CTxMemPool \<Rightarrow> bool" where
  "mempool_wf mempool =
     (\<forall>t \<in> set (score_index mempool).
        CalculateMemPoolAncestors mempool t \<subseteq> set (score_index mempool)
        \<and> CalculateDescendants mempool t \<subseteq> set (score_index mempool)
        \<and> (\<forall>a \<in> CalculateMemPoolAncestors mempool t.
              CalculateMemPoolAncestors mempool a \<subseteq> CalculateMemPoolAncestors mempool t
              \<and> GetCountWithAncestors (mapTx mempool a) < GetCountWithAncestors (mapTx mempool t)))"

definition block_entries :: "CTxMemPool \<Rightarrow> txiter list \<Rightarrow> CTransactionRef list" where
  "block_entries mempool es = map (\<lambda>it. Some (GetSharedTx (mapTx mempool it))) es"

text \<open>Every mempool ancestor of an entry of the list is at a strictly earlier position.\<close>

definition ancestors_first :: "CTxMemPool \<Rightarrow> txiter list \<Rightarrow> bool" where
  "ancestors_first mempool es =
     (\<forall>j < length es. \<forall>a \<in> CalculateMemPoolAncestors mempool (es ! j). \<exists>i < j. es ! i = a)"

text \<open>
  The loop over \<^verbatim>\<open>sortedEntries\<close> as the specification words it: a transaction that
  carries contract opcodes goes through \<^verbatim>\<open>AttemptToAddContractToBlock\<close> when contracts
  are enabled, any other through \<^verbatim>\<open>AddToBlock\<close>, and each is erased from the overlay.
\<close>

fun add_sorted_spec ::
  "'vm Env \<Rightarrow> CTxMemPool \<Rightarrow> bool \<Rightarrow> (CTransaction \<Rightarrow> bool) \<Rightarrow> uint \<Rightarrow> uint64 \<Rightarrow> txiter list
     \<Rightarrow> SelectionState \<Rightarrow> fault + SelectionState"
where
  "add_sorted_spec env mempool contracts_enabled HasCreateOrCall buf minGasPrice [] st = Inr st"
| "add_sorted_spec env mempool contracts_enabled HasCreateOrCall buf minGasPrice (it # rest) st =
     (if contracts_enabled \<and> HasCreateOrCall (GetSharedTx (mapTx mempool it)) then
        (case AttemptToAddContractToBlock env mempool buf it minGasPrice (assembler st) of
           Inl f \<Rightarrow> Inl f
         | Inr (ok, s1) \<Rightarrow>
             add_sorted_spec env mempool contracts_enabled HasCreateOrCall buf minGasPrice rest
               (st\<lparr>assembler := s1, mapModifiedTx := mod_erase it (mapModifiedTx st)\<rparr>))
      else
        add_sorted_spec env mempool contracts_enabled HasCreateOrCall buf minGasPrice rest
          (st\<lparr>assembler := AddToBlock mempool it (assembler st),
              mapModifiedTx := mod_erase it (mapModifiedTx st)\<rparr>))"

text \<open>
  The block is \<open>vtx0\<close> followed by the transactions of mempool entries \<open>es\<close>, which are
  pairwise different, are exactly the entries of \<^verbatim>\<open>inBlock\<close>, and come after their ancestors.
\<close>

definition ordered_block :: "CTxMemPool \<Rightarrow> CTransactionRef list \<Rightarrow> MinerState \<Rightarrow> bool" where
  "ordered_block mempool vtx0 s =
     (\<exists>es. vtx s = vtx0 @ block_entries mempool es \<and> distinct es \<and> set es = inBlock s
           \<and> ancestors_first mempool es)"

subsection \<open>Example data\<close>

text \<open>
  A small chain situation on which the properties below are exercised: a proof-of-work
  template at height 101 whose only transaction is the coinbase, and a mempool of three
  entries, where entry 1 spends an output of entry 0.
\<close>

definition ex_defaults :: MinerDefaults where
  "ex_defaults =
     \<lparr> MAX_STAKE_LOOKAHEAD = 48, BYTECODE_TIME_BUFFER = 6, STAKE_TIME_BUFFER = 2,
       STAKER_POLLING_PERIOD = 5000, STAKER_POLLING_PERIOD_MIN_DIFFICULTY = 20000,
       STAKER_WAIT_FOR_WALID_BLOCK = 3000, STAKER_WAIT_FOR_BEST_BLOCK_HEADER = 250 \<rparr>"

definition ex_consensus :: ConsensusParams where
  "ex_consensus =
     \<lparr> TimestampDownscaleFactor = (\<lambda>h. if h < 100 then 1 else 4),
       TargetSpacing = (\<lambda>h. if h < 100 then 128 else 32) \<rparr>"

definition ex_params_after :: MinerParams where
  "ex_params_after =
     \<lparr> nMaxStakeLookahead = 12, nBytecodeTimeBuffer = 1, nStakeTimeBuffer = 1,
       nMinerSleep = 20000, nMinerWaitWalidBlock = 750, nMinerWaitBestBlockHeader = 250,
       timeDownscale = 4, timeDefault = 1 \<rparr>"

definition ex_coinbase :: CTransaction where
  "ex_coinbase =
     \<lparr> vin = [\<lparr>prevout_hash = 0, prevout_n = 4294967295, scriptSig = [101, 0]\<rparr>],
       vout = [\<lparr>nValue = 400000000, scriptPubKey = [81]\<rparr>], nLockTime = 0 \<rparr>"

definition ex_tx :: "nat \<Rightarrow> CTransaction" where
  "ex_tx n =
     \<lparr> vin = [\<lparr>prevout_hash = of_nat n + 1, prevout_n = 0, scriptSig = []\<rparr>],
       vout = [\<lparr>nValue = 1000, scriptPubKey = [81]\<rparr>], nLockTime = 0 \<rparr>"

definition ex_refund :: CTxOut where
  "ex_refund = \<lparr>nValue = 2000000, scriptPubKey = [118]\<rparr>"

definition ex_env :: "unit Env" where
  "ex_env =
     \<lparr> WITNESS_SCALE_FACTOR = 4, dgpMaxBlockSigOps = 80000, dgpMaxBlockWeight = 8000000,
       GetBlockSubsidy = (\<lambda>h. 400000000),
       GetLegacySigOpCount = (\<lambda>t. of_nat (length (vout t))),
       GetTransactionWeight = (\<lambda>t. 400),
       IsFinalTx = (\<lambda>t h c. True),
       IsProofOfStake = (\<lambda>v. False),
       blockMinFeeRate_GetFee = (\<lambda>n. n),
       CompareModifiedEntry =
         (\<lambda>a b. nModFeesWithAncestors b * nSizeWithAncestors a
                  < nModFeesWithAncestors a * nSizeWithAncestors b),
       GetAdjustedTimeSeconds = 1700000000,
       disablecontractstaking = False,
       extractionQtumTransactions = (\<lambda>t v. Some [\<lparr>gas = 100000, gasPrice = 40\<rparr>]),
       performByteCode = (\<lambda>v q l g. (True, (), g\<lparr>rootHash := rootHash g + 1\<rparr>)),
       processingResults =
         (\<lambda>x g. (True,
                  \<lparr>usedGas = 60000, refundSender = 2000000, refundOutputs = [ex_refund],
                   valueTransfers = []\<rparr>, g)) \<rparr>"

definition ex_env_vm_fails :: "unit Env" where
  "ex_env_vm_fails =
     ex_env\<lparr>performByteCode :=
              (\<lambda>v q l g. (False, (), g\<lparr>rootHash := 99, rootHashUTXO := 98\<rparr>))\<rparr>"

definition ex_state :: MinerState where
  "ex_state =
     \<lparr> nBlockMaxWeight = 4000000, nBlockWeight = 4000, nBlockTx = 0,
       nBlockSigOpsCost = 400, nFees = 0, inBlock = {}, nHeight = 101,
       m_lock_time_cutoff = 1699999000, nTimeLimit = 0, originalRewardTx = ex_coinbase,
       bceResult = \<lparr>usedGas = 0, refundSender = 0, refundOutputs = [], valueTransfers = []\<rparr>,
       softBlockGasLimit = 40000000, hardBlockGasLimit = 40000000, txGasLimit = 40000000,
       vtx = [Some ex_coinbase], vTxFees = [- 1], vTxSigOpsCost = [- 1],
       globalState = \<lparr>rootHash = 7, rootHashUTXO = 9\<rparr> \<rparr>"

definition ex_bceResult :: ByteCodeExecResult where
  "ex_bceResult =
     \<lparr>usedGas = 60000, refundSender = 2000000, refundOutputs = [ex_refund], valueTransfers = []\<rparr>"

definition ex_state_contract :: MinerState where
  "ex_state_contract =
     ex_state\<lparr>nBlockWeight := 4800, nBlockTx := 1, nBlockSigOpsCost := 405,
       nFees := 8000, inBlock := {2}, bceResult := ex_bceResult,
       vtx := [Some (ex_coinbase\<lparr>vout := [\<lparr>nValue = 398008000, scriptPubKey = [81]\<rparr>, ex_refund]\<rparr>),
               Some (ex_tx 2)],
       vTxFees := [- 1, 8000], vTxSigOpsCost := [- 1, 4],
       globalState := \<lparr>rootHash = 8, rootHashUTXO = 9\<rparr>\<rparr>"

definition ex_entry :: "nat \<Rightarrow> CTxMemPoolEntry" where
  "ex_entry n =
     \<lparr> GetSharedTx = ex_tx n, GetTxWeight = 800, GetTxSize = 200,
       GetFee = (if n = 0 then 0 else if n = 1 then 20000 else 8000),
       GetModifiedFee = (if n = 0 then 0 else if n = 1 then 20000 else 8000),
       GetSigOpCost = 4,
       GetCountWithAncestors = (if n = 1 then 2 else 1),
       GetSizeWithAncestors = (if n = 1 then 400 else 200),
       GetModFeesWithAncestors = (if n = 0 then 0 else if n = 1 then 20000 else 8000),
       GetSigOpCostWithAncestors = (if n = 1 then 8 else 4) \<rparr>"

definition ex_mempool :: CTxMemPool where
  "ex_mempool =
     \<lparr> mapTx = ex_entry, score_index = [1, 2, 0],
       CalculateMemPoolAncestors = (\<lambda>t. if t = 1 then {0} else {}),
       CalculateDescendants = (\<lambda>t. if t = 0 then {0, 1} else {t}) \<rparr>"

text \<open>States of the selection over the example mempool.\<close>

definition ex_included_0 :: MinerState where
  "ex_included_0 =
     ex_state\<lparr>nBlockWeight := 4800, nBlockTx := 1, nBlockSigOpsCost := 404,
       nFees := 0, inBlock := {0},
       vtx := [Some ex_coinbase, Some (ex_tx 0)],
       vTxFees := [- 1, 0], vTxSigOpsCost := [- 1, 4]\<rparr>"

definition ex_included_1 :: MinerState where
  "ex_included_1 =
     ex_state\<lparr>nBlockWeight := 5600, nBlockTx := 2, nBlockSigOpsCost := 408,
       nFees := 20000, inBlock := {0, 1},
       vtx := [Some ex_coinbase, Some (ex_tx 0), Some (ex_tx 1)],
       vTxFees := [- 1, 0, 20000], vTxSigOpsCost := [- 1, 4, 4]\<rparr>"

definition ex_included_2 :: MinerState where
  "ex_included_2 =
     ex_state\<lparr>nBlockWeight := 6400, nBlockTx := 3, nBlockSigOpsCost := 412,
       nFees := 28000, inBlock := {0, 1, 2},
       vtx := [Some ex_coinbase, Some (ex_tx 0), Some (ex_tx 1), Some (ex_tx 2)],
       vTxFees := [- 1, 0, 20000, 8000], vTxSigOpsCost := [- 1, 4, 4, 4]\<rparr>"

definition ex_selection :: "nat \<Rightarrow> 32 word \<Rightarrow> MinerState \<Rightarrow> SelectionState" where
  "ex_selection i n s =
     \<lparr> mi = i, mapModifiedTx = [], failedTx = {}, nConsecutiveFailed = 0,
       nPackagesSelected = n, nDescendantsUpdated = 0, assembler = s \<rparr>"

text \<open>A fee rate that the package of entry 1 reaches and entry 2 does not.\<close>

definition ex_env_min45 :: "unit Env" where
  "ex_env_min45 = ex_env\<lparr>blockMinFeeRate_GetFee := (\<lambda>n. 45 * n)\<rparr>"

text \<open>
  Entry 0 is in the block, the index is exhausted, and entry 1 waits in the overlay without
  its parent's size, fee and sigops; in the second state the block is nearly full and
  1000 candidates in a row have failed.
\<close>

definition ex_mod_1 :: CTxMemPoolModifiedEntry where
  "ex_mod_1 =
     \<lparr> iter = 1, nSizeWithAncestors = 200, nModFeesWithAncestors = 20000,
       nSigOpCostWithAncestors = 4 \<rparr>"

definition ex_overlay_state :: SelectionState where
  "ex_overlay_state =
     \<lparr> mi = 3, mapModifiedTx = [ex_mod_1], failedTx = {}, nConsecutiveFailed = 3,
       nPackagesSelected = 1, nDescendantsUpdated = 1, assembler = ex_included_0 \<rparr>"

definition ex_overlay_after :: SelectionState where
  "ex_overlay_after =
     \<lparr> mi = 3, mapModifiedTx = [], failedTx = {}, nConsecutiveFailed = 0,
       nPackagesSelected = 2, nDescendantsUpdated = 1, assembler = ex_included_1 \<rparr>"

definition ex_full_state :: SelectionState where
  "ex_full_state =
     \<lparr> mi = 3, mapModifiedTx = [ex_mod_1], failedTx = {}, nConsecutiveFailed = 1000,
       nPackagesSelected = 1, nDescendantsUpdated = 1,
       assembler = ex_included_0\<lparr>nBlockWeight := 3999500\<rparr> \<rparr>"

definition ex_full_after :: SelectionState where
  "ex_full_after =
     \<lparr> mi = 3, mapModifiedTx = [], failedTx = {1}, nConsecutiveFailed = 1001,
       nPackagesSelected = 1, nDescendantsUpdated = 1,
       assembler = ex_included_0\<lparr>nBlockWeight := 3999500\<rparr> \<rparr>"

text \<open>
  The same near-full block after five failures in a row, and at the start of the index
  after 999: the packages of entries 1 and 2 are both too large for what is left.
\<close>

definition ex_fail_state :: SelectionState where
  "ex_fail_state = ex_full_state\<lparr>nConsecutiveFailed := 5\<rparr>"

definition ex_fail_after :: SelectionState where
  "ex_fail_after = ex_full_after\<lparr>nConsecutiveFailed := 6\<rparr>"

definition ex_nearly_full :: "nat \<Rightarrow> int64 \<Rightarrow> SelectionState" where
  "ex_nearly_full i n =
     \<lparr> mi = i, mapModifiedTx = [], failedTx = {}, nConsecutiveFailed = n,
       nPackagesSelected = 0, nDescendantsUpdated = 0,
       assembler = ex_state\<lparr>nBlockWeight := 3999500\<rparr> \<rparr>"

section \<open>Properties\<close>

subsection \<open>Machine integers\<close>

lemma sint_ucast_32_64: "sint (ucast (t :: 32 word) :: 64 word) = uint t"
proof -
  have "uint t < 2 ^ 32" using uint_lt2p[of t] by simp
  then have up: "uint t < 2 ^ 63" by simp
  have "- (2 ^ 63) \<le> (0::int)" by simp
  then have "- (2 ^ 63) \<le> uint t" using uint_nonnegative[of t] by (rule order_trans)
  with up show ?thesis
    by (simp add: signed_ucast_eq signed_take_bit_int_eq_self)
qed

lemma uint_eq_sint_nonneg:
  assumes "0 \<le> sint (n :: 64 word)"
  shows "uint n = sint n"
proof -
  have "sint n < 2 ^ 64" using sint_lt[of n] by simp
  with assms show ?thesis by (simp add: uint_sint[of n] take_bit_int_eq_self)
qed

lemma uint_ucast_64_32:
  assumes "0 \<le> sint (n :: 64 word)" and "sint n < 2 ^ 32"
  shows "uint (ucast n :: 32 word) = sint n"
proof -
  have "uint (ucast n :: 32 word) = take_bit 32 (uint n)" by (simp add: unsigned_ucast_eq)
  also have "\<dots> = take_bit 32 (sint n)" using assms(1) by (simp add: uint_eq_sint_nonneg)
  also have "\<dots> = sint n" using assms by (simp add: take_bit_int_eq_self)
  finally show ?thesis .
qed




subsection \<open>\<^verbatim>\<open>updateMinerParams\<close>\<close>

lemma updateMinerParams_wait:
  "updateMinerParams d cp h m g = Inr g'
     \<Longrightarrow> nMinerWaitBestBlockHeader g' = nMinerWaitBestBlockHeader g"
  by (auto simp: updateMinerParams_def Let_def split: if_splits)

lemma updateMinerParams_calls_wait:
  "updateMinerParams_calls d cp cs g = Inr g'
     \<Longrightarrow> nMinerWaitBestBlockHeader g' = nMinerWaitBestBlockHeader g"
proof (induction cs arbitrary: g)
  case Nil
  then show ?case by simp
next
  case (Cons c cs)
  obtain h m where c: "c = (h, m)" by (cases c)
  from Cons.prems c obtain g1 where s: "updateMinerParams d cp h m g = Inr g1"
    and r: "updateMinerParams_calls d cp cs g1 = Inr g'"
    by (auto split: sum.splits)
  from Cons.IH[OF r] updateMinerParams_wait[OF s] show ?case by simp
qed

lemma updateMinerParams_returns:
  "TimestampDownscaleFactor cp h \<noteq> 0 \<Longrightarrow> \<exists>g'. updateMinerParams d cp h m g = Inr g'"
  by (simp add: updateMinerParams_def Let_def)

text \<open>
  C10. \<^verbatim>\<open>updateMinerParams\<close> never modifies \<^verbatim>\<open>nMinerWaitBestBlockHeader\<close>: a call that
  returns leaves it as it was, also when the downscale factor changes and the five other
  variables are recomputed; and after any run of calls from the initial values it is still
  \<^verbatim>\<open>STAKER_WAIT_FOR_BEST_BLOCK_HEADER\<close>. (The only call that does not return divides by
  a downscale factor of zero.)
\<close>

theorem updateMinerParams_keeps_nMinerWaitBestBlockHeader:
  "(updateMinerParams d cp h m g = Inr g'
      \<longrightarrow> nMinerWaitBestBlockHeader g' = nMinerWaitBestBlockHeader g)
   \<and> (updateMinerParams_calls d cp cs (initialMinerParams d) = Inr g''
      \<longrightarrow> nMinerWaitBestBlockHeader g'' = STAKER_WAIT_FOR_BEST_BLOCK_HEADER d)"
proof (intro conjI impI)
  assume "updateMinerParams d cp h m g = Inr g'"
  then show "nMinerWaitBestBlockHeader g' = nMinerWaitBestBlockHeader g"
    by (rule updateMinerParams_wait)
next
  assume "updateMinerParams_calls d cp cs (initialMinerParams d) = Inr g''"
  then have "nMinerWaitBestBlockHeader g'' = nMinerWaitBestBlockHeader (initialMinerParams d)"
    by (rule updateMinerParams_calls_wait)
  then show "nMinerWaitBestBlockHeader g'' = STAKER_WAIT_FOR_BEST_BLOCK_HEADER d"
    by (simp add: initialMinerParams_def)
qed

theorem updateMinerParams_keeps_nMinerWaitBestBlockHeader_witness:
  "updateMinerParams ex_defaults ex_consensus 200 True (initialMinerParams ex_defaults)
     = Inr ex_params_after
   \<and> updateMinerParams_calls ex_defaults ex_consensus [(5, False), (200, True)]
       (initialMinerParams ex_defaults) = Inr ex_params_after
   \<and> nMinerWaitBestBlockHeader ex_params_after = STAKER_WAIT_FOR_BEST_BLOCK_HEADER ex_defaults
   \<and> nMinerSleep ex_params_after \<noteq> nMinerSleep (initialMinerParams ex_defaults)"
  using updateMinerParams_keeps_nMinerWaitBestBlockHeader
          [of ex_defaults ex_consensus 200 True "initialMinerParams ex_defaults" ex_params_after
              "[(5, False), (200, True)]" ex_params_after]
  by (simp add: updateMinerParams_def ex_defaults_def ex_consensus_def initialMinerParams_def
        ex_params_after_def Let_def)

subsection \<open>\<^verbatim>\<open>UpdateTime\<close>\<close>

text \<open>
  C9, as stated: the header time never decreases. It fails when the new time does not fit
  the 32-bit field: with a header time of 10, a median time past of 0 and a clock at
  \<open>2 ^ 32\<close>, the assignment \<^verbatim>\<open>pblock->nTime = nNewTime\<close> stores 0.
\<close>

theorem UpdateTime_decreases_counterexample:
  "\<not> nTime \<lparr>nTime = 10, nBits = 0\<rparr>
       \<le> nTime (fst (UpdateTime False (\<lambda>_. 0) 0 4294967296 \<lparr>nTime = 10, nBits = 0\<rparr>))"
  by (simp add: UpdateTime_def max_int64_def Let_def word_sless_alt)

text \<open>
  C9, amended: the header time changes only when the new time
  \<open>max (median time past + 1) (adjusted time)\<close> is strictly greater than the old one, and
  the value returned is the new time minus the old one; when the new time is below
  \<open>2 ^ 32\<close>, the header time does not decrease, and a header time that is set is exactly
  the new time.
\<close>

theorem UpdateTime_monotone:
  "(sint (max_int64 (medianTimePast + 1) adjustedTime) < 2 ^ 32 \<longrightarrow>
      nTime pblock \<le> nTime (fst (UpdateTime f g medianTimePast adjustedTime pblock))
      \<and> (uint (nTime pblock) < sint (max_int64 (medianTimePast + 1) adjustedTime)
           \<longrightarrow> uint (nTime (fst (UpdateTime f g medianTimePast adjustedTime pblock)))
                 = sint (max_int64 (medianTimePast + 1) adjustedTime)))
   \<and> (nTime (fst (UpdateTime f g medianTimePast adjustedTime pblock)) \<noteq> nTime pblock
        \<longrightarrow> uint (nTime pblock) < sint (max_int64 (medianTimePast + 1) adjustedTime))
   \<and> snd (UpdateTime f g medianTimePast adjustedTime pblock)
        = max_int64 (medianTimePast + 1) adjustedTime - ucast (nTime pblock)"
proof -
  define new where "new = max_int64 (medianTimePast + 1) adjustedTime"
  define old where "old = (ucast (nTime pblock) :: int64)"
  have cmp: "(old <s new) = (uint (nTime pblock) < sint new)"
    by (simp add: old_def word_sless_alt sint_ucast_32_64)
  have t: "nTime (fst (UpdateTime f g medianTimePast adjustedTime pblock)) =
            (if old <s new then ucast new else nTime pblock)"
    by (simp add: UpdateTime_def Let_def new_def old_def)
  have r: "snd (UpdateTime f g medianTimePast adjustedTime pblock) = new - old"
    by (simp add: UpdateTime_def Let_def new_def old_def)
  have set: "uint (ucast new :: 32 word) = sint new" if "old <s new" and "sint new < 2 ^ 32"
  proof -
    from that(1) cmp have "0 \<le> sint new" using uint_nonnegative[of "nTime pblock"] by linarith
    then show ?thesis using that(2) by (simp add: uint_ucast_64_32)
  qed
  have mono: "nTime pblock \<le> (ucast new :: 32 word)" if "old <s new" and "sint new < 2 ^ 32"
    using that set[OF that] cmp by (simp add: word_le_def)
  show ?thesis
    unfolding new_def[symmetric] using t r set mono cmp by (auto simp: old_def)
qed

theorem UpdateTime_monotone_witness:
  "sint (max_int64 (1699999000 + 1) 1700000000) < 2 ^ 32
   \<and> nTime (fst (UpdateTime True (\<lambda>b. 5) 1699999000 1700000000 \<lparr>nTime = 1699999990, nBits = 0\<rparr>))
       = 1700000000
   \<and> nTime (fst (UpdateTime True (\<lambda>b. 5) 1699999000 1700000000 \<lparr>nTime = 1699999990, nBits = 0\<rparr>))
       \<noteq> nTime \<lparr>nTime = 1699999990, nBits = 0\<rparr>
   \<and> uint (1699999990 :: 32 word) < sint (max_int64 (1699999000 + 1) 1700000000)
   \<and> snd (UpdateTime True (\<lambda>b. 5) 1699999000 1700000000 \<lparr>nTime = 1699999990, nBits = 0\<rparr>) = 10"
proof -
  have fit: "sint (max_int64 (1699999000 + 1) 1700000000) < 2 ^ 32"
    by (simp add: max_int64_def word_sless_alt)
  from UpdateTime_monotone[of 1699999000 1700000000 "\<lparr>nTime = 1699999990, nBits = 0\<rparr>" True "\<lambda>b. 5"]
       fit
  show ?thesis
    by (simp add: UpdateTime_def max_int64_def Let_def word_sless_alt)
qed

subsection \<open>\<^verbatim>\<open>TestPackage\<close>\<close>

text \<open>
  C3. \<^verbatim>\<open>TestPackage\<close> returns true if and only if
  \<^verbatim>\<open>nBlockWeight + WITNESS_SCALE_FACTOR * packageSize < nBlockMaxWeight\<close> and
  \<^verbatim>\<open>nBlockSigOpsCost + packageSigOpsCost < dgpMaxBlockSigOps\<close>, in the 64-bit unsigned
  arithmetic of the source. Both comparisons are strict: a package that fills the weight
  budget exactly, or the sigops budget exactly, is rejected.
\<close>

theorem TestPackage_strict:
  "TestPackage env s packageSize packageSigOpsCost =
     (nBlockWeight s + WITNESS_SCALE_FACTOR env * packageSize < ucast (nBlockMaxWeight s)
      \<and> nBlockSigOpsCost s + packageSigOpsCost < ucast (dgpMaxBlockSigOps env))
   \<and> TestPackage env
       (s\<lparr>nBlockWeight := ucast (nBlockMaxWeight s) - WITNESS_SCALE_FACTOR env * packageSize\<rparr>)
       packageSize packageSigOpsCost = False
   \<and> TestPackage env
       (s\<lparr>nBlockSigOpsCost := ucast (dgpMaxBlockSigOps env) - packageSigOpsCost\<rparr>)
       packageSize packageSigOpsCost = False"
  by (auto simp: TestPackage_def)

subsection \<open>\<^verbatim>\<open>RebuildRefundTransaction\<close>\<close>

lemma assign_outputs_append:
  "length pad = length outs \<Longrightarrow> assign_outputs (pre @ pad) (length pre) outs = Inr (pre @ outs)"
proof (induction outs arbitrary: pre pad)
  case Nil
  then show ?case by simp
next
  case (Cons x outs)
  then obtain p ps where pad: "pad = p # ps" and len: "length ps = length outs"
    by (cases pad) auto
  have "assign_outputs ((pre @ [x]) @ ps) (length (pre @ [x])) outs = Inr ((pre @ [x]) @ outs)"
    using len by (rule Cons.IH)
  then show ?case by (simp add: pad)
qed

lemma append_refund_outputs_eq:
  "append_refund_outputs tx outs = Inr (tx\<lparr>vout := vout tx @ outs\<rparr>)"
  using assign_outputs_append[of "replicate (length outs) CTxOut_null" outs "vout tx"]
  by (simp add: append_refund_outputs_def resize_def Let_def)


text \<open>
  C5. Let \<open>r\<close> be 1 for a proof-of-stake block and 0 otherwise, and let the original reward
  transaction have an output \<open>r\<close> and the block a transaction \<open>r\<close>. Then
  \<^verbatim>\<open>RebuildRefundTransaction\<close> returns, and it changes the block's transaction \<open>r\<close> only:
  that one becomes the original reward transaction (so with its inputs) whose outputs are
  the original outputs, the value of output \<open>r\<close> replaced by
  \<^verbatim>\<open>GetBlockSubsidy(nHeight) + nFees - bceResult.refundSender\<close>, followed by
  \<^verbatim>\<open>bceResult.refundOutputs\<close> in order.
\<close>

theorem RebuildRefundTransaction_reward:
  assumes "r = (if IsProofOfStake env (vtx s) then 1 else 0)"
    and "r < length (vout (originalRewardTx s))" and "r < length (vtx s)"
  shows "RebuildRefundTransaction env s =
     Inr (s\<lparr>vtx := (vtx s)[r := Some ((originalRewardTx s)\<lparr>vout :=
        (vout (originalRewardTx s))[r := (vout (originalRewardTx s) ! r)\<lparr>nValue :=
            GetBlockSubsidy env (nHeight s) + nFees s - refundSender (bceResult s)\<rparr>]
         @ refundOutputs (bceResult s)\<rparr>)]\<rparr>)"
  using assms
  by (simp add: RebuildRefundTransaction_def Let_def append_refund_outputs_eq add.commute)

theorem RebuildRefundTransaction_reward_witness:
  "(0::nat) = (if IsProofOfStake ex_env (vtx (ex_state\<lparr>nFees := 5000000, bceResult := ex_bceResult\<rparr>))
               then 1 else 0)
   \<and> RebuildRefundTransaction ex_env (ex_state\<lparr>nFees := 5000000, bceResult := ex_bceResult\<rparr>) =
       Inr (ex_state\<lparr>nFees := 5000000, bceResult := ex_bceResult,
              vtx := [Some (ex_coinbase\<lparr>vout :=
                        [\<lparr>nValue = 403000000, scriptPubKey = [81]\<rparr>, ex_refund]\<rparr>)]\<rparr>)"
  using RebuildRefundTransaction_reward
          [of 0 ex_env "ex_state\<lparr>nFees := 5000000, bceResult := ex_bceResult\<rparr>"]
  by (simp add: ex_env_def ex_state_def ex_coinbase_def ex_bceResult_def)

subsection \<open>\<^verbatim>\<open>AttemptToAddContractToBlock\<close>\<close>


lemma commit_contract_True:
  "commit_contract env mp it p t s = Inr (ok, s') \<Longrightarrow> ok"
  by (auto simp: commit_contract_def Let_def split: sum.splits)


lemma restore_roots_id:
  "restore_roots (rootHash (globalState s)) (rootHashUTXO (globalState s))
     (s\<lparr>globalState := g\<rparr>) = s"
  by (simp add: restore_roots_def)

lemma after_execution_False:
  assumes "after_execution env mp it (rootHash (globalState s0)) (rootHashUTXO (globalState s0)) t
             (s0\<lparr>globalState := g\<rparr>) = Inr (False, s')"
  shows "s' = s0"
  using assms
  by (auto simp: after_execution_def Let_def restore_roots_id
      split: if_splits prod.splits sum.splits dest: commit_contract_True)


text \<open>
  C1. A call of \<^verbatim>\<open>AttemptToAddContractToBlock\<close> that returns false leaves the whole state
  as it was at entry: the two roots of the global contract state, the counters
  \<^verbatim>\<open>nBlockWeight\<close>, \<^verbatim>\<open>nBlockSigOpsCost\<close>, \<^verbatim>\<open>nBlockTx\<close> and \<^verbatim>\<open>nFees\<close>, the set
  \<^verbatim>\<open>inBlock\<close>, the block's transactions and \<^verbatim>\<open>bceResult\<close>.
\<close>

theorem AttemptToAddContractToBlock_refusal_atomic:
  assumes "AttemptToAddContractToBlock env mempool buf it minGasPrice s = Inr (False, s')"
  shows "s' = s"
  using assms
  by (auto simp: AttemptToAddContractToBlock_def Let_def restore_roots_id
      split: if_splits option.splits prod.splits dest: after_execution_False)

lemmas attempt_defs =
  AttemptToAddContractToBlock_def after_execution_def commit_contract_def Let_def deref_vtx_def
  append_refund_outputs_eq RebuildRefundTransaction_def restore_roots_def

lemmas ex_defs =
  ex_env_def ex_state_def ex_mempool_def ex_entry_def ex_coinbase_def ex_tx_def ex_refund_def
  ex_bceResult_def

theorem AttemptToAddContractToBlock_refusal_atomic_witness:
  "AttemptToAddContractToBlock ex_env_vm_fails ex_mempool 6 2 40 ex_state = Inr (False, ex_state)
   \<and> globalState ex_state = \<lparr>rootHash = 7, rootHashUTXO = 9\<rparr>"
proof -
  have run: "AttemptToAddContractToBlock ex_env_vm_fails ex_mempool 6 2 40 ex_state =
      Inr (False, ex_state\<lparr>globalState := \<lparr>rootHash = 7, rootHashUTXO = 9\<rparr>\<rparr>)"
    by (simp add: ex_env_vm_fails_def ex_defs attempt_defs)
  from AttemptToAddContractToBlock_refusal_atomic[OF run] run show ?thesis
    by (simp add: ex_state_def)
qed




text \<open>
  The sums of the loop are 256-bit sums. That is why the bound on the gas of a call is
  needed below: at a used gas of 3 the loop lets pass the calls with gas 5 and
  \<open>2 ^ 256 - 3\<close>, whose sums wrap around to 2 and to 0. The script of a transaction holds
  the gas of a call in eight bytes, so an extracted call has a gas below \<open>2 ^ 64\<close>.
\<close>

lemma check_gas_wraps:
  "check_gas (ex_state\<lparr>bceResult := (bceResult ex_state)\<lparr>usedGas := 3\<rparr>\<rparr>) 40 0
     [\<lparr>gas = 5, gasPrice = 40\<rparr>, \<lparr>gas = - 3, gasPrice = 40\<rparr>]"
  by (simp add: ex_state_def Let_def)


lemma ex_contract_run:
  "AttemptToAddContractToBlock ex_env ex_mempool 6 2 40 ex_state = Inr (True, ex_state_contract)"
  by (simp add: ex_state_contract_def ex_defs attempt_defs)


subsection \<open>\<^verbatim>\<open>addPackageTxs\<close>: one iteration\<close>

lemma choose_candidate_loop_condition:
  "choose_candidate env mp st = Inr c \<Longrightarrow> loop_condition mp st"
  by (auto simp: choose_candidate_def loop_condition_def split: if_splits list.splits)

lemma body_selects:
  "selects env mp st it modit mi1 \<Longrightarrow>
     addPackageTxs_body env mp st =
       Continue (include_package env mp (package_of mp (assembler st) it) (st\<lparr>mi := mi1\<rparr>))"
  by (auto simp: selects_def addPackageTxs_body_def Let_def split: prod.splits)

lemma body_fails_fit:
  "fails_fit env mp st it modit mi1 \<Longrightarrow>
     addPackageTxs_body env mp st =
      (let st3 = (evict_failed it modit (st\<lparr>mi := mi1\<rparr>))\<lparr>nConsecutiveFailed := nConsecutiveFailed st + 1\<rparr>
       in if 1000 <s nConsecutiveFailed st + 1
              \<and> nBlockWeight (assembler st) > ucast (nBlockMaxWeight (assembler st) - 4000)
          then Break st3 else Continue st3)"
  by (auto simp: fails_fit_def addPackageTxs_body_def Let_def evict_failed_def split: prod.splits option.splits)

lemma body_Break:
  "addPackageTxs_body env mp st = Break st' \<longleftrightarrow>
     (\<exists>it modit mi1. fails_fit env mp st it modit mi1
        \<and> 1000 <s nConsecutiveFailed st + 1
        \<and> nBlockWeight (assembler st) > ucast (nBlockMaxWeight (assembler st) - 4000)
        \<and> st' = (evict_failed it modit (st\<lparr>mi := mi1\<rparr>))\<lparr>nConsecutiveFailed := nConsecutiveFailed st + 1\<rparr>)"
  (is "?L = ?R")
proof
  assume L: ?L
  from L have ns: "\<not> stale mp st"
    by (auto simp: addPackageTxs_body_def split: if_splits)
  from L ns obtain it modit mi1 where c: "choose_candidate env mp st = Inr (it, modit, mi1)"
    by (cases "choose_candidate env mp st") (auto simp: addPackageTxs_body_def)
  obtain sz fees sig where ps: "package_stats mp it modit = (sz, fees, sig)"
    by (cases "package_stats mp it modit")
  from L ns c ps have nb: "it \<notin> inBlock (assembler st)"
    by (auto simp: addPackageTxs_body_def Let_def split: if_splits)
  from L ns c ps nb have fee: "\<not> fees <s blockMinFeeRate_GetFee env sz"
    by (auto simp: addPackageTxs_body_def Let_def split: if_splits)
  from L ns c ps nb fee have fit: "\<not> TestPackage env (assembler st) sz sig"
    by (auto simp: addPackageTxs_body_def Let_def split: if_splits)
  have ff: "fails_fit env mp st it modit mi1"
    using ns c ps nb fee fit by (simp add: fails_fit_def)
  from L show ?R
    unfolding body_fails_fit[OF ff] using ff
    by (auto simp: Let_def split: if_splits)
next
  assume ?R
  then show ?L by (auto simp: body_fails_fit Let_def)
qed

lemma evict_failed_assembler: "assembler (evict_failed it modit st) = assembler st"
  by (simp add: evict_failed_def split: option.splits)

lemma add_sorted_frame:
  "nConsecutiveFailed (add_sorted mp xs st) = nConsecutiveFailed st
   \<and> nPackagesSelected (add_sorted mp xs st) = nPackagesSelected st
   \<and> nDescendantsUpdated (add_sorted mp xs st) = nDescendantsUpdated st
   \<and> failedTx (add_sorted mp xs st) = failedTx st
   \<and> mi (add_sorted mp xs st) = mi st"
  by (induction xs arbitrary: st) auto

lemma add_sorted_assembler:
  "assembler (add_sorted mp xs st) = fold (AddToBlock mp) xs (assembler st)"
  by (induction xs arbitrary: st) auto

lemma add_sorted_overlay:
  "mapModifiedTx (add_sorted mp xs st) = filter (\<lambda>e. iter e \<notin> set xs) (mapModifiedTx st)"
  by (induction xs arbitrary: st) (auto simp: mod_erase_def intro: filter_cong)

lemma include_package_counter:
  "nConsecutiveFailed (include_package env mp anc st) = 0
   \<and> nPackagesSelected (include_package env mp anc st) = nPackagesSelected st + 1
   \<and> assembler (include_package env mp anc st) = fold (AddToBlock mp) (SortForBlock mp anc) (assembler st)"
  by (simp add: include_package_def Let_def add_sorted_frame add_sorted_assembler split: prod.splits)

lemma set_sorted_list_of_set_subset: "set (sorted_list_of_set (A :: nat set)) \<subseteq> A"
  by (cases "finite A") auto

lemma mod_insert_iters: "iter ` set (mod_insert env e m) = insert (iter e) (iter ` set m)"
  by (induction m) auto

lemma mod_erase_iters: "iter ` set (mod_erase it m) = iter ` set m - {it}"
  by (auto simp: mod_erase_def)

lemma update_for_parent_inclusion_iter [simp]:
  "iter (update_for_parent_inclusion mp it e) = iter e"
  by (simp add: update_for_parent_inclusion_def)

lemma mod_find_Some: "mod_find m d = Some e \<Longrightarrow> iter e = d \<and> e \<in> set m"
  by (auto simp: mod_find_def find_Some_iff)

lemma mod_modify_iters:
  "iter ` set (mod_modify env d (update_for_parent_inclusion mp it) m) \<subseteq> insert d (iter ` set m)"
  by (auto simp: mod_modify_def mod_insert_iters mod_erase_iters split: option.splits
      dest: mod_find_Some)

lemma update_descendants_iters:
  "iter ` set (snd (update_descendants env mp A it ds acc))
     \<subseteq> iter ` set (snd acc) \<union> (set ds - A)"
proof (induction ds arbitrary: acc)
  case Nil
  then show ?case by simp
next
  case (Cons d ds)
  obtain n m where acc: "acc = (n, m)" by (cases acc)
  show ?case
  proof (cases "d \<in> A")
    case True
    with Cons.IH[of "(n, m)"] acc show ?thesis by auto
  next
    case False
    let ?m' = "case mod_find m d of
             None \<Rightarrow> mod_insert env (update_for_parent_inclusion mp it (CTxMemPoolModifiedEntry_of mp d)) m
           | Some e \<Rightarrow> mod_modify env d (update_for_parent_inclusion mp it) m"
    have m': "iter ` set ?m' \<subseteq> insert d (iter ` set m)"
      using mod_modify_iters[of env d mp it m]
      by (auto simp: mod_insert_iters CTxMemPoolModifiedEntry_of_def split: option.splits)
    from Cons.IH[of "(n + 1, ?m')"] m' False acc show ?thesis by auto
  qed
qed

lemma update_packages_iters:
  "iter ` set (snd (update_packages env mp A xs acc))
     \<subseteq> iter ` set (snd acc) \<union> ((\<Union>x\<in>set xs. CalculateDescendants mp x) - A)"
proof (induction xs arbitrary: acc)
  case Nil
  then show ?case by simp
next
  case (Cons x xs)
  let ?acc' = "update_descendants env mp A x (sorted_list_of_set (CalculateDescendants mp x)) acc"
  have "iter ` set (snd ?acc') \<subseteq> iter ` set (snd acc) \<union> (CalculateDescendants mp x - A)"
    using update_descendants_iters[of env mp A x "sorted_list_of_set (CalculateDescendants mp x)" acc]
      set_sorted_list_of_set_subset[of "CalculateDescendants mp x"] by auto
  with Cons.IH[of ?acc'] show ?case by auto
qed

lemma UpdatePackagesForAdded_iters:
  "iter ` set (snd (UpdatePackagesForAdded env mp A m))
     \<subseteq> iter ` set m \<union> ((\<Union>x\<in>A. CalculateDescendants mp x) - A)"
proof -
  have a: "iter ` set (snd (UpdatePackagesForAdded env mp A m))
     \<subseteq> iter ` set m \<union> ((\<Union>x\<in>set (sorted_list_of_set A). CalculateDescendants mp x) - A)"
    using update_packages_iters[of env mp A "sorted_list_of_set A" "(0, m)"]
    by (simp add: UpdatePackagesForAdded_def)
  have b: "(\<Union>x\<in>set (sorted_list_of_set A). CalculateDescendants mp x)
             \<subseteq> (\<Union>x\<in>A. CalculateDescendants mp x)"
    using set_sorted_list_of_set_subset[of A] by blast
  from a b show ?thesis by blast
qed

lemma SortForBlock_set: "finite A \<Longrightarrow> set (SortForBlock mp A) = A"
  by (simp add: SortForBlock_def)

lemma SortForBlock_distinct: "distinct (SortForBlock mp A)"
  by (simp add: SortForBlock_def)

lemma SortForBlock_sorted:
  "sorted (map (\<lambda>it. GetCountWithAncestors (mapTx mp it)) (SortForBlock mp A))"
  by (simp add: SortForBlock_def CompareTxIterByAncestorCount_key_def)

lemma include_package_overlay:
  assumes "finite A"
  shows "iter ` set (mapModifiedTx (include_package env mp A st))
     \<subseteq> (iter ` set (mapModifiedTx st) \<union> (\<Union>x\<in>A. CalculateDescendants mp x)) - A"
proof -
  let ?m = "filter (\<lambda>e. iter e \<notin> A) (mapModifiedTx st)"
  have "mapModifiedTx (include_package env mp A st) = snd (UpdatePackagesForAdded env mp A ?m)"
    using assms
    by (simp add: include_package_def Let_def add_sorted_overlay SortForBlock_set split: prod.splits)
  then show ?thesis using UpdatePackagesForAdded_iters[of env mp A ?m] by auto
qed

lemma fold_AddToBlock:
  "vtx (fold (AddToBlock mp) xs s) = vtx s @ block_entries mp xs
   \<and> inBlock (fold (AddToBlock mp) xs s) = inBlock s \<union> set xs"
  by (induction xs arbitrary: s) (auto simp: AddToBlock_def block_entries_def Let_def)

lemma choose_candidate_in_index:
  assumes "choose_candidate env mp st = Inr (it, modit, mi1)"
    and "iter ` set (mapModifiedTx st) \<subseteq> set (score_index mp)"
  shows "it \<in> set (score_index mp)"
  using assms
  by (auto simp: choose_candidate_def Let_def split: if_splits list.splits)

lemma body_cases:
  assumes "addPackageTxs_body env mp st = Continue st' \<or> addPackageTxs_body env mp st = Break st'
           \<or> addPackageTxs_body env mp st = Return st'"
  shows "(assembler st' = assembler st \<and> set (mapModifiedTx st') \<subseteq> set (mapModifiedTx st))
       \<or> (\<exists>it modit mi1. selects env mp st it modit mi1
            \<and> st' = include_package env mp (package_of mp (assembler st) it) (st\<lparr>mi := mi1\<rparr>))"
proof (cases "stale mp st")
  case True
  with assms show ?thesis by (auto simp: addPackageTxs_body_def)
next
  case ns: False
  from assms ns obtain it modit mi1 where c: "choose_candidate env mp st = Inr (it, modit, mi1)"
    by (cases "choose_candidate env mp st") (auto simp: addPackageTxs_body_def)
  obtain sz fees sig where ps: "package_stats mp it modit = (sz, fees, sig)"
    by (cases "package_stats mp it modit")
  from assms ns c ps have nb: "it \<notin> inBlock (assembler st)"
    by (auto simp: addPackageTxs_body_def Let_def split: if_splits)
  have tl: "set (tl (mapModifiedTx st)) \<subseteq> set (mapModifiedTx st)"
    by (cases "mapModifiedTx st") auto
  show ?thesis
  proof (cases "selects env mp st it modit mi1")
    case True
    from body_selects[OF True] assms True show ?thesis by auto
  next
    case False
    with ns c ps nb have
      "fees <s blockMinFeeRate_GetFee env sz \<or> \<not> TestPackage env (assembler st) sz sig
       \<or> \<not> TestPackageTransactions env mp (assembler st) (package_of mp (assembler st) it)"
      by (auto simp: selects_def)
    with assms ns c ps nb tl have "assembler st' = assembler st
         \<and> set (mapModifiedTx st') \<subseteq> set (mapModifiedTx st)"
      by (auto simp: addPackageTxs_body_def Let_def evict_failed_def
          split: if_splits option.splits)
    then show ?thesis by simp
  qed
qed

lemma package_order_step:
  assumes wf: "mempool_wf mp"
    and it: "it \<in> set (score_index mp)"
    and nb: "it \<notin> inBlock s"
    and d: "distinct es" and se: "set es = inBlock s" and af: "ancestors_first mp es"
  shows "ancestors_first mp (es @ SortForBlock mp (package_of mp s it))
     \<and> distinct (es @ SortForBlock mp (package_of mp s it))
     \<and> set (es @ SortForBlock mp (package_of mp s it)) = inBlock s \<union> package_of mp s it
     \<and> package_of mp s it \<subseteq> set (score_index mp)"
proof -
  let ?anc = "CalculateMemPoolAncestors mp"
  let ?cnt = "\<lambda>t. GetCountWithAncestors (mapTx mp t)"
  define pkg where "pkg = package_of mp s it"
  define srt where "srt = SortForBlock mp pkg"
  from wf it have sub: "?anc it \<subseteq> set (score_index mp)"
    and tr: "\<And>a. a \<in> ?anc it \<Longrightarrow> ?anc a \<subseteq> ?anc it"
    by (auto simp: mempool_wf_def)
  have cnt: "?cnt a < ?cnt t" if "t \<in> set (score_index mp)" "a \<in> ?anc t" for a t
    using wf that by (auto simp: mempool_wf_def)
  have pkg: "pkg = insert it {a \<in> ?anc it. a \<notin> inBlock s}"
    by (auto simp: pkg_def package_of_def onlyUnconfirmed_def)
  have "finite (?anc it)" using sub by (rule finite_subset) simp
  then have fin: "finite pkg" by (simp add: pkg)
  have ssrt: "set srt = pkg" using fin by (simp add: srt_def SortForBlock_set)
  have dsrt: "distinct srt" by (simp add: srt_def SortForBlock_distinct)
  have sorted: "sorted (map ?cnt srt)" by (simp add: srt_def SortForBlock_sorted)
  have psub: "pkg \<subseteq> set (score_index mp)" using sub it by (auto simp: pkg)
  have disj: "set es \<inter> pkg = {}" using nb se by (auto simp: pkg)
  have anc_pkg: "?anc t \<subseteq> ?anc it" if "t \<in> pkg" for t
    using that tr by (auto simp: pkg)
  have af': "ancestors_first mp (es @ srt)"
    unfolding ancestors_first_def
  proof (intro allI impI ballI)
    fix j a
    assume j: "j < length (es @ srt)" and a: "a \<in> ?anc ((es @ srt) ! j)"
    show "\<exists>i<j. (es @ srt) ! i = a"
    proof (cases "j < length es")
      case True
      with a have "a \<in> ?anc (es ! j)" by (simp add: nth_append)
      with af True obtain i where "i < j" "es ! i = a"
        by (auto simp: ancestors_first_def)
      with True show ?thesis by (auto simp: nth_append intro!: exI[of _ i])
    next
      case False
      define k where "k = j - length es"
      from False j have k: "k < length srt" and jk: "j = length es + k"
        by (auto simp: k_def)
      have T: "(es @ srt) ! j = srt ! k" using jk by (simp add: nth_append)
      have Tp: "srt ! k \<in> pkg" using k ssrt nth_mem by blast
      from a T have aT: "a \<in> ?anc (srt ! k)" by simp
      with anc_pkg[OF Tp] have ait: "a \<in> ?anc it" by blast
      from Tp psub have "srt ! k \<in> set (score_index mp)" by blast
      from cnt[OF this aT] have lt: "?cnt a < ?cnt (srt ! k)" .
      show ?thesis
      proof (cases "a \<in> inBlock s")
        case True
        with se have "a \<in> set es" by simp
        then obtain i where "i < length es" "es ! i = a"
          by (auto simp: in_set_conv_nth)
        with jk show ?thesis by (auto simp: nth_append intro!: exI[of _ i])
      next
        case False
        with ait have "a \<in> pkg" by (simp add: pkg)
        with ssrt have "a \<in> set srt" by simp
        then obtain k' where k': "k' < length srt" "srt ! k' = a"
          by (auto simp: in_set_conv_nth)
        have "k' < k"
        proof (rule ccontr)
          assume "\<not> k' < k"
          then have "k \<le> k'" by simp
          with sorted k' have "map ?cnt srt ! k \<le> map ?cnt srt ! k'"
            by (intro sorted_nth_mono) auto
          with k k' have "?cnt (srt ! k) \<le> ?cnt a" by simp
          with lt show False by simp
        qed
        with k' jk show ?thesis
          by (auto simp: nth_append intro!: exI[of _ "length es + k'"])
      qed
    qed
  qed
  show ?thesis
    using af' d dsrt disj ssrt se psub
    unfolding pkg_def[symmetric] srt_def[symmetric] by auto
qed

lemma block_entries_append:
  "block_entries mp (xs @ ys) = block_entries mp xs @ block_entries mp ys"
  by (simp add: block_entries_def)

lemma include_package_inv:
  assumes wf: "mempool_wf mp"
    and ov: "iter ` set (mapModifiedTx st) \<subseteq> set (score_index mp)"
    and ob: "ordered_block mp v0 (assembler st)"
    and sel: "selects env mp st it modit mi1"
  shows "iter ` set (mapModifiedTx (include_package env mp (package_of mp (assembler st) it) (st\<lparr>mi := mi1\<rparr>)))
           \<subseteq> set (score_index mp)
     \<and> ordered_block mp v0 (assembler (include_package env mp (package_of mp (assembler st) it) (st\<lparr>mi := mi1\<rparr>)))"
proof -
  let ?s = "assembler st"
  let ?pkg = "package_of mp ?s it"
  let ?st' = "include_package env mp ?pkg (st\<lparr>mi := mi1\<rparr>)"
  from sel have c: "choose_candidate env mp st = Inr (it, modit, mi1)" and nb: "it \<notin> inBlock ?s"
    by (auto simp: selects_def)
  have it: "it \<in> set (score_index mp)" using c ov by (rule choose_candidate_in_index)
  from ob obtain es where es: "vtx ?s = v0 @ block_entries mp es" "distinct es"
    "set es = inBlock ?s" "ancestors_first mp es"
    by (auto simp: ordered_block_def)
  from package_order_step[OF wf it nb es(2,3,4)] have
    st: "ancestors_first mp (es @ SortForBlock mp ?pkg)" "distinct (es @ SortForBlock mp ?pkg)"
      "set (es @ SortForBlock mp ?pkg) = inBlock ?s \<union> ?pkg"
      "?pkg \<subseteq> set (score_index mp)"
    by auto
  have fin: "finite ?pkg" using st(4) by (rule finite_subset) simp
  have a: "assembler ?st' = fold (AddToBlock mp) (SortForBlock mp ?pkg) ?s"
    by (simp add: include_package_counter)
  have "vtx (assembler ?st') = v0 @ block_entries mp (es @ SortForBlock mp ?pkg)"
    by (simp add: a fold_AddToBlock es(1) block_entries_append)
  moreover have "set (es @ SortForBlock mp ?pkg) = inBlock (assembler ?st')"
    using st(3) fin by (simp add: a fold_AddToBlock SortForBlock_set)
  ultimately have ob': "ordered_block mp v0 (assembler ?st')"
    using st(1,2) unfolding ordered_block_def by blast
  have desc: "(\<Union>x\<in>?pkg. CalculateDescendants mp x) \<subseteq> set (score_index mp)"
    using wf st(4) by (auto simp: mempool_wf_def)
  have io: "iter ` set (mapModifiedTx ?st')
      \<subseteq> (iter ` set (mapModifiedTx st) \<union> (\<Union>x\<in>?pkg. CalculateDescendants mp x)) - ?pkg"
    using include_package_overlay[OF fin, of env mp "st\<lparr>mi := mi1\<rparr>"] by simp
  from io ov desc have "iter ` set (mapModifiedTx ?st') \<subseteq> set (score_index mp)" by blast
  with ob' show ?thesis by simp
qed

lemma body_inv:
  assumes wf: "mempool_wf mp"
    and ov: "iter ` set (mapModifiedTx st) \<subseteq> set (score_index mp)"
    and ob: "ordered_block mp v0 (assembler st)"
    and step: "addPackageTxs_body env mp st = Continue st' \<or> addPackageTxs_body env mp st = Break st'
           \<or> addPackageTxs_body env mp st = Return st'"
  shows "iter ` set (mapModifiedTx st') \<subseteq> set (score_index mp) \<and> ordered_block mp v0 (assembler st')"
  using body_cases[OF step]
proof
  assume "assembler st' = assembler st \<and> set (mapModifiedTx st') \<subseteq> set (mapModifiedTx st)"
  with ov ob show ?thesis by auto
next
  assume "\<exists>it modit mi1. selects env mp st it modit mi1
            \<and> st' = include_package env mp (package_of mp (assembler st) it) (st\<lparr>mi := mi1\<rparr>)"
  then obtain it modit mi1 where sel: "selects env mp st it modit mi1"
    and st': "st' = include_package env mp (package_of mp (assembler st) it) (st\<lparr>mi := mi1\<rparr>)"
    by blast
  from include_package_inv[OF wf ov ob sel] st' show ?thesis by simp
qed

lemma iterations_inv:
  assumes wf: "mempool_wf mp"
    and it: "iterations env mp st0 st"
    and ov: "iter ` set (mapModifiedTx st0) \<subseteq> set (score_index mp)"
    and ob: "ordered_block mp v0 (assembler st0)"
  shows "iter ` set (mapModifiedTx st) \<subseteq> set (score_index mp) \<and> ordered_block mp v0 (assembler st)"
  using it
proof (induction rule: iterations.induct)
  case iterations_start
  from ov ob show ?case by simp
next
  case (iterations_step st st1)
  from iterations_step.IH iterations_step.hyps(3) show ?case
    using body_inv[OF wf, of st v0 env st1] by blast
qed

lemma loop_inv:
  assumes wf: "mempool_wf mp"
  shows "addPackageTxs_loop n env mp st = Some (Inr st') \<Longrightarrow>
     iter ` set (mapModifiedTx st) \<subseteq> set (score_index mp) \<Longrightarrow> ordered_block mp v0 (assembler st) \<Longrightarrow>
     iter ` set (mapModifiedTx st') \<subseteq> set (score_index mp) \<and> ordered_block mp v0 (assembler st')"
proof (induction n arbitrary: st)
  case 0
  then show ?case by simp
next
  case (Suc n)
  show ?case
  proof (cases "loop_condition mp st")
    case False
    with Suc.prems show ?thesis by simp
  next
    case True
    show ?thesis
    proof (cases "addPackageTxs_body env mp st")
      case (Continue st1)
      from body_inv[OF wf Suc.prems(2,3), of env st1] Continue
      have "iter ` set (mapModifiedTx st1) \<subseteq> set (score_index mp)" "ordered_block mp v0 (assembler st1)"
        by auto
      moreover from Suc.prems(1) True Continue have "addPackageTxs_loop n env mp st1 = Some (Inr st')"
        by simp
      ultimately show ?thesis using Suc.IH by blast
    next
      case (Break st1)
      with Suc.prems(1) True have "st1 = st'" by simp
      with body_inv[OF wf Suc.prems(2,3), of env st'] Break show ?thesis by auto
    next
      case (Return st1)
      with Suc.prems(1) True have "st1 = st'" by simp
      with body_inv[OF wf Suc.prems(2,3), of env st'] Return show ?thesis by auto
    next
      case (Fault f)
      with Suc.prems(1) True show ?thesis by simp
    qed
  qed
qed

lemma ordered_block_start: "inBlock s = {} \<Longrightarrow> ordered_block mp (vtx s) s"
  by (auto simp: ordered_block_def block_entries_def ancestors_first_def intro!: exI[of _ "[]"])


subsection \<open>\<^verbatim>\<open>addPackageTxs\<close>: the example run\<close>

lemma onlyUnconfirmed_Diff: "onlyUnconfirmed s testSet = testSet - inBlock s"
  by (auto simp: onlyUnconfirmed_def)

lemmas body_defs =
  addPackageTxs_body_def stale_def mod_count_def choose_candidate_def package_stats_def
  TestPackage_def TestPackageTransactions_def package_of_def onlyUnconfirmed_Diff
  include_package_def SortForBlock_def CompareTxIterByAncestorCount_key_def AddToBlock_def UpdatePackagesForAdded_def Let_def
  word_sless_alt CTxMemPoolModifiedEntry_of_def mod_erase_def mod_find_def evict_failed_def

lemmas run_defs =
  body_defs ex_defs ex_selection_def ex_included_0_def ex_included_1_def ex_included_2_def
  insert_commute

lemma ex_step_1:
  "addPackageTxs_body ex_env ex_mempool (ex_selection 0 0 ex_state)
     = Continue (ex_selection 1 1 ex_included_1)"
  by (simp add: run_defs)

lemma ex_step_2:
  "addPackageTxs_body ex_env ex_mempool (ex_selection 1 1 ex_included_1)
     = Continue (ex_selection 2 2 ex_included_2)"
  by (simp add: run_defs)

lemma ex_step_3:
  "addPackageTxs_body ex_env ex_mempool (ex_selection 2 2 ex_included_2)
     = Continue (ex_selection 3 2 ex_included_2)"
  by (simp add: run_defs)

lemma ex_loop_condition:
  "loop_condition ex_mempool (ex_selection 0 n s)" "loop_condition ex_mempool (ex_selection 1 n s)"
  "loop_condition ex_mempool (ex_selection 2 n s)" "\<not> loop_condition ex_mempool (ex_selection 3 n s)"
  by (simp_all add: loop_condition_def ex_mempool_def ex_selection_def)

lemma ex_run:
  "addPackageTxs 4 ex_env ex_mempool 0 0 ex_state = Some (Inr (ex_selection 3 2 ex_included_2))"
proof -
  have s: "selection_start 0 0 ex_state = ex_selection 0 0 ex_state"
    by (simp add: selection_start_def ex_selection_def)
  have "addPackageTxs_loop (Suc (Suc (Suc (Suc 0)))) ex_env ex_mempool (ex_selection 0 0 ex_state)
          = Some (Inr (ex_selection 3 2 ex_included_2))"
    by (simp only: addPackageTxs_loop.simps ex_loop_condition ex_step_1 ex_step_2 ex_step_3
          flow.case if_True if_False)
  moreover have "(4 :: nat) = Suc (Suc (Suc (Suc 0)))" by simp
  ultimately show ?thesis by (simp only: addPackageTxs_def s)
qed

lemma ex_mempool_wf: "mempool_wf ex_mempool"
  by (simp add: mempool_wf_def ex_mempool_def ex_entry_def)

lemma ex_overlay_selects: "selects ex_env ex_mempool ex_overlay_state 1 (Some ex_mod_1) 3"
  by (simp add: selects_def ex_overlay_state_def ex_mod_1_def run_defs)

lemma ex_overlay_step:
  "addPackageTxs_body ex_env ex_mempool ex_overlay_state = Continue ex_overlay_after"
  by (simp add: ex_overlay_state_def ex_overlay_after_def ex_mod_1_def run_defs)

lemma ex_full_step:
  "addPackageTxs_body ex_env ex_mempool ex_full_state = Break ex_full_after"
  by (simp add: ex_full_state_def ex_full_after_def ex_mod_1_def run_defs)

subsection \<open>\<^verbatim>\<open>addPackageTxs\<close>: the claims\<close>

text \<open>
  C2. Let the mempool be well formed and \<^verbatim>\<open>inBlock\<close> empty when \<^verbatim>\<open>addPackageTxs\<close>
  starts. Then at the head of every iteration of its loop, so after every package
  inclusion, and in the state that a run returns, the block is what it was at the start
  followed by the transactions of a list of mempool entries without duplicates, whose set
  is \<^verbatim>\<open>inBlock\<close>, and every mempool ancestor of an entry of the list is in the list at a
  strictly earlier position.
\<close>

theorem addPackageTxs_ancestors_first:
  assumes wf: "mempool_wf mempool" and empty: "inBlock s = {}"
    and reach: "iterations env mempool (selection_start p d s) st
                \<or> addPackageTxs fuel env mempool p d s = Some (Inr st)"
  shows "\<exists>es. vtx (assembler st) = vtx s @ block_entries mempool es \<and> distinct es
            \<and> set es = inBlock (assembler st) \<and> ancestors_first mempool es"
proof -
  have ov: "iter ` set (mapModifiedTx (selection_start p d s)) \<subseteq> set (score_index mempool)"
    by (simp add: selection_start_def)
  have ob: "ordered_block mempool (vtx s) (assembler (selection_start p d s))"
    using ordered_block_start[OF empty] by (simp add: selection_start_def)
  from reach have "ordered_block mempool (vtx s) (assembler st)"
  proof
    assume "iterations env mempool (selection_start p d s) st"
    from iterations_inv[OF wf this ov ob] show ?thesis by simp
  next
    assume "addPackageTxs fuel env mempool p d s = Some (Inr st)"
    then have "addPackageTxs_loop fuel env mempool (selection_start p d s) = Some (Inr st)"
      by (simp add: addPackageTxs_def)
    from loop_inv[OF wf this ov ob] show ?thesis by simp
  qed
  then show ?thesis by (simp add: ordered_block_def)
qed

theorem addPackageTxs_ancestors_first_witness:
  "mempool_wf ex_mempool \<and> inBlock ex_state = {}
   \<and> iterations ex_env ex_mempool (selection_start 0 0 ex_state) (ex_selection 1 1 ex_included_1)
   \<and> addPackageTxs 4 ex_env ex_mempool 0 0 ex_state = Some (Inr (ex_selection 3 2 ex_included_2))
   \<and> (\<exists>es. vtx ex_included_1 = vtx ex_state @ block_entries ex_mempool es \<and> distinct es
            \<and> set es = inBlock ex_included_1 \<and> ancestors_first ex_mempool es)
   \<and> (\<exists>es. vtx ex_included_2 = vtx ex_state @ block_entries ex_mempool es \<and> distinct es
            \<and> set es = inBlock ex_included_2 \<and> ancestors_first ex_mempool es)"
proof -
  have empty: "inBlock ex_state = {}" by (simp add: ex_state_def)
  have s: "selection_start 0 0 ex_state = ex_selection 0 0 ex_state"
    by (simp add: selection_start_def ex_selection_def)
  have it: "iterations ex_env ex_mempool (selection_start 0 0 ex_state)
              (ex_selection 1 1 ex_included_1)"
    unfolding s
    by (rule iterations_step[OF iterations_start ex_loop_condition(1) ex_step_1])
  from addPackageTxs_ancestors_first[OF ex_mempool_wf empty disjI1[OF it]]
       addPackageTxs_ancestors_first[OF ex_mempool_wf empty disjI2[OF ex_run]]
       ex_mempool_wf empty it ex_run
  show ?thesis by (simp add: ex_selection_def)
qed

text \<open>
  C4, as stated: a transaction that carries contract opcodes is included through
  \<^verbatim>\<open>AttemptToAddContractToBlock\<close> when contracts are enabled. The loop of the source has
  no such case: on the package of entry 2, with a contract call in its transaction, it gives
  another state than the loop that the claim describes (no gas is used, no refund is
  recorded).
\<close>

theorem addPackageTxs_no_contract_dispatch_counterexample:
  "Inr (add_sorted ex_mempool [2] (ex_selection 0 0 ex_state))
     \<noteq> add_sorted_spec ex_env ex_mempool True (\<lambda>t. True) 6 40 [2] (ex_selection 0 0 ex_state)"
proof
  assume eq: "Inr (add_sorted ex_mempool [2] (ex_selection 0 0 ex_state))
     = add_sorted_spec ex_env ex_mempool True (\<lambda>t. True) 6 40 [2] (ex_selection 0 0 ex_state)"
  have e1: "add_sorted ex_mempool [2] (ex_selection 0 0 ex_state)
      = (ex_selection 0 0 ex_state)\<lparr>assembler := AddToBlock ex_mempool 2 ex_state,
                                      mapModifiedTx := []\<rparr>"
    by (simp add: ex_selection_def mod_erase_def)
  have e2: "add_sorted_spec ex_env ex_mempool True (\<lambda>t. True) 6 40 [2]
      (ex_selection 0 0 ex_state)
      = Inr ((ex_selection 0 0 ex_state)\<lparr>assembler := ex_state_contract, mapModifiedTx := []\<rparr>)"
    by (simp add: ex_selection_def ex_contract_run mod_erase_def)
  from eq[unfolded e1 e2] have "AddToBlock ex_mempool 2 ex_state = ex_state_contract"
    by (simp add: ex_selection_def)
  then have "bceResult (AddToBlock ex_mempool 2 ex_state) = bceResult ex_state_contract"
    by simp
  then show False
    by (simp add: AddToBlock_def Let_def ex_state_def ex_state_contract_def ex_bceResult_def)
qed

text \<open>
  C4, amended: when an iteration selects a package, every transaction of the package is
  included by \<^verbatim>\<open>AddToBlock\<close>, in the order of \<^verbatim>\<open>SortForBlock\<close>, whatever it carries;
  after the iteration none of them is in the overlay, and the counter of selected packages
  is one more.
\<close>

theorem addPackageTxs_includes_by_AddToBlock:
  assumes sel: "selects env mempool st it modit mi1"
    and fin: "finite (CalculateMemPoolAncestors mempool it)"
  shows "\<exists>st1. addPackageTxs_body env mempool st = Continue st1
     \<and> assembler st1 = fold (AddToBlock mempool)
                          (SortForBlock mempool (package_of mempool (assembler st) it)) (assembler st)
     \<and> set (SortForBlock mempool (package_of mempool (assembler st) it))
          = package_of mempool (assembler st) it
     \<and> (\<forall>t \<in> package_of mempool (assembler st) it. \<not> mod_count (mapModifiedTx st1) t)
     \<and> nPackagesSelected st1 = nPackagesSelected st + 1"
proof -
  let ?pkg = "package_of mempool (assembler st) it"
  have f: "finite ?pkg" using fin by (simp add: package_of_def onlyUnconfirmed_def)
  from include_package_overlay[OF f, of env mempool "st\<lparr>mi := mi1\<rparr>"]
  have "\<forall>t \<in> ?pkg. \<not> mod_count (mapModifiedTx (include_package env mempool ?pkg (st\<lparr>mi := mi1\<rparr>))) t"
    by (auto simp: mod_count_def)
  with body_selects[OF sel] f show ?thesis
    by (simp add: include_package_counter SortForBlock_set)
qed

theorem addPackageTxs_includes_by_AddToBlock_witness:
  "selects ex_env ex_mempool ex_overlay_state 1 (Some ex_mod_1) 3
   \<and> finite (CalculateMemPoolAncestors ex_mempool 1)
   \<and> addPackageTxs_body ex_env ex_mempool ex_overlay_state = Continue ex_overlay_after
   \<and> assembler ex_overlay_after = AddToBlock ex_mempool 1 (assembler ex_overlay_state)
   \<and> mod_count (mapModifiedTx ex_overlay_state) 1
   \<and> \<not> mod_count (mapModifiedTx ex_overlay_after) 1
   \<and> nPackagesSelected ex_overlay_after = nPackagesSelected ex_overlay_state + 1"
proof -
  have fin: "finite (CalculateMemPoolAncestors ex_mempool 1)" by (simp add: ex_mempool_def)
  have pkg: "package_of ex_mempool (assembler ex_overlay_state) 1 = {1}"
    by (auto simp: ex_overlay_state_def run_defs)
  have srt: "SortForBlock ex_mempool {1} = [1]"
    by (simp add: SortForBlock_def CompareTxIterByAncestorCount_key_def)
  from addPackageTxs_includes_by_AddToBlock[OF ex_overlay_selects fin]
  obtain st1 where b: "addPackageTxs_body ex_env ex_mempool ex_overlay_state = Continue st1"
    and a: "assembler st1 = fold (AddToBlock ex_mempool)
              (SortForBlock ex_mempool (package_of ex_mempool (assembler ex_overlay_state) 1))
              (assembler ex_overlay_state)"
    and o: "\<forall>t \<in> package_of ex_mempool (assembler ex_overlay_state) 1.
              \<not> mod_count (mapModifiedTx st1) t"
    and n: "nPackagesSelected st1 = nPackagesSelected ex_overlay_state + 1"
    by blast
  from b ex_overlay_step have st1: "st1 = ex_overlay_after" by simp
  have "assembler ex_overlay_after = AddToBlock ex_mempool 1 (assembler ex_overlay_state)"
    using a unfolding st1 pkg srt by simp
  moreover have "\<not> mod_count (mapModifiedTx ex_overlay_after) 1"
    using o unfolding st1 pkg by simp
  moreover have "nPackagesSelected ex_overlay_after = nPackagesSelected ex_overlay_state + 1"
    using n unfolding st1 .
  moreover have "mod_count (mapModifiedTx ex_overlay_state) 1"
    by (simp add: mod_count_def ex_overlay_state_def ex_mod_1_def)
  ultimately show ?thesis using ex_overlay_selects fin ex_overlay_step by simp
qed

text \<open>
  C6. When the fees of the candidate package are below the minimum fee for its size, the
  iteration returns from \<^verbatim>\<open>addPackageTxs\<close>, whatever the fuel: the state that the function
  leaves is the state at the head of that iteration, but for the cursor \<^verbatim>\<open>mi\<close>. So the
  block gets no further transaction, and nothing is recorded for the candidate: the set of
  failed entries, the overlay and the failure counter are as they were.
\<close>

theorem addPackageTxs_fee_early_exit:
  assumes ns: "\<not> stale mempool st"
    and c: "choose_candidate env mempool st = Inr (it, modit, mi1)"
    and nb: "it \<notin> inBlock (assembler st)"
    and ps: "package_stats mempool it modit = (packageSize, packageFees, packageSigOpsCost)"
    and fee: "packageFees <s blockMinFeeRate_GetFee env packageSize"
  shows "addPackageTxs_body env mempool st = Return (st\<lparr>mi := mi1\<rparr>)
     \<and> addPackageTxs_loop (Suc n) env mempool st = Some (Inr (st\<lparr>mi := mi1\<rparr>))"
proof -
  have b: "addPackageTxs_body env mempool st = Return (st\<lparr>mi := mi1\<rparr>)"
    using ns c nb ps fee by (simp add: addPackageTxs_body_def Let_def)
  moreover have "loop_condition mempool st" using c by (rule choose_candidate_loop_condition)
  ultimately show ?thesis by simp
qed

theorem addPackageTxs_fee_early_exit_witness:
  "\<not> stale ex_mempool (ex_selection 1 1 ex_included_1)
   \<and> choose_candidate ex_env_min45 ex_mempool (ex_selection 1 1 ex_included_1) = Inr (2, None, 2)
   \<and> 2 \<notin> inBlock (assembler (ex_selection 1 1 ex_included_1))
   \<and> package_stats ex_mempool 2 None = (200, 8000, 4)
   \<and> (8000 :: 64 word) <s blockMinFeeRate_GetFee ex_env_min45 200
   \<and> addPackageTxs_body ex_env_min45 ex_mempool (ex_selection 1 1 ex_included_1)
       = Return (ex_selection 2 1 ex_included_1)
   \<and> addPackageTxs_loop (Suc 0) ex_env_min45 ex_mempool (ex_selection 1 1 ex_included_1)
       = Some (Inr (ex_selection 2 1 ex_included_1))"
proof -
  have ns: "\<not> stale ex_mempool (ex_selection 1 1 ex_included_1)"
    by (simp add: run_defs)
  have c: "choose_candidate ex_env_min45 ex_mempool (ex_selection 1 1 ex_included_1)
             = Inr (2, None, 2)"
    by (simp add: ex_env_min45_def run_defs)
  have nb: "2 \<notin> inBlock (assembler (ex_selection 1 1 ex_included_1))"
    by (simp add: run_defs)
  have ps: "package_stats ex_mempool 2 None = (200, 8000, 4)"
    by (simp add: run_defs)
  have fee: "(8000 :: 64 word) <s blockMinFeeRate_GetFee ex_env_min45 200"
    by (simp add: ex_env_min45_def ex_env_def word_sless_alt)
  have e: "(ex_selection 1 1 ex_included_1)\<lparr>mi := 2\<rparr> = ex_selection 2 1 ex_included_1"
    by (simp add: ex_selection_def)
  from addPackageTxs_fee_early_exit[OF ns c nb ps fee, of 0] ns c nb ps fee
  show ?thesis by (simp only: e simp_thms)
qed

lemma fails_fit_not_selects:
  "fails_fit env mp st it modit mi1 \<Longrightarrow> \<not> selects env mp st it' modit' mi1'"
  by (auto simp: fails_fit_def selects_def)

lemma body_Continue_counter:
  assumes c: "addPackageTxs_body env mp st = Continue st1"
  shows "nConsecutiveFailed st1 =
     (if \<exists>it modit mi1. fails_fit env mp st it modit mi1 then nConsecutiveFailed st + 1
      else if \<exists>it modit mi1. selects env mp st it modit mi1 then 0
      else nConsecutiveFailed st)"
proof (cases "\<exists>it modit mi1. fails_fit env mp st it modit mi1")
  case True
  then obtain it modit mi1 where ff: "fails_fit env mp st it modit mi1" by blast
  from c show ?thesis
    unfolding body_fails_fit[OF ff] using True
    by (auto simp: Let_def split: if_splits)
next
  case nf: False
  show ?thesis
  proof (cases "\<exists>it modit mi1. selects env mp st it modit mi1")
    case True
    then obtain it modit mi1 where sel: "selects env mp st it modit mi1" by blast
    from c body_selects[OF sel]
    have "st1 = include_package env mp (package_of mp (assembler st) it) (st\<lparr>mi := mi1\<rparr>)"
      by simp
    then have "nConsecutiveFailed st1 = 0"
      by (simp add: include_package_counter)
    with nf True show ?thesis by auto
  next
    case ns: False
    have "nConsecutiveFailed st1 = nConsecutiveFailed st"
    proof (cases "stale mp st")
      case True
      with c show ?thesis by (auto simp: addPackageTxs_body_def)
    next
      case nst: False
      from c nst obtain it modit mi1 where ch: "choose_candidate env mp st = Inr (it, modit, mi1)"
        by (cases "choose_candidate env mp st") (auto simp: addPackageTxs_body_def)
      obtain sz fees sig where ps: "package_stats mp it modit = (sz, fees, sig)"
        by (cases "package_stats mp it modit")
      from c nst ch ps have nb: "it \<notin> inBlock (assembler st)"
        by (auto simp: addPackageTxs_body_def Let_def split: if_splits)
      from c nst ch ps nb have fee: "\<not> fees <s blockMinFeeRate_GetFee env sz"
        by (auto simp: addPackageTxs_body_def Let_def split: if_splits)
      from nf nst ch ps nb fee have fit: "TestPackage env (assembler st) sz sig"
        by (auto simp: fails_fit_def)
      from ns nst ch ps nb fee fit have
        fin: "\<not> TestPackageTransactions env mp (assembler st) (package_of mp (assembler st) it)"
        by (auto simp: selects_def)
      from c nst ch ps nb fee fit fin have "st1 = evict_failed it modit (st\<lparr>mi := mi1\<rparr>)"
        by (simp add: addPackageTxs_body_def Let_def)
      then show ?thesis by (simp add: evict_failed_def split: option.splits)
    qed
    with nf ns show ?thesis by auto
  qed
qed

lemma ex_fail_fit: "fails_fit ex_env ex_mempool ex_fail_state 1 (Some ex_mod_1) 3"
  by (simp add: fails_fit_def ex_fail_state_def ex_full_state_def ex_mod_1_def run_defs)

lemma ex_fail_step:
  "addPackageTxs_body ex_env ex_mempool ex_fail_state = Continue ex_fail_after"
  by (simp add: ex_fail_state_def ex_fail_after_def ex_full_state_def ex_full_after_def
        ex_mod_1_def run_defs)

lemma ex_full_fit: "fails_fit ex_env ex_mempool ex_full_state 1 (Some ex_mod_1) 3"
  by (simp add: fails_fit_def ex_full_state_def ex_mod_1_def run_defs)

text \<open>Two failures in a row on the nearly full block, the second one the 1001st.\<close>

lemma ex_nearly_full_fit:
  "fails_fit ex_env ex_mempool (ex_nearly_full 0 999) 1 None 1"
  "fails_fit ex_env ex_mempool (ex_nearly_full 1 1000) 2 None 2"
  by (simp_all add: fails_fit_def ex_nearly_full_def run_defs)

lemma ex_nearly_full_steps:
  "addPackageTxs_body ex_env ex_mempool (ex_nearly_full 0 999) = Continue (ex_nearly_full 1 1000)"
  "addPackageTxs_body ex_env ex_mempool (ex_nearly_full 1 1000) = Break (ex_nearly_full 2 1001)"
  by (simp_all add: ex_nearly_full_def run_defs)

lemma ex_nearly_full_run:
  "addPackageTxs_loop (Suc (Suc 0)) ex_env ex_mempool (ex_nearly_full 0 999)
     = Some (Inr (ex_nearly_full 2 1001))"
proof -
  have "loop_condition ex_mempool (ex_nearly_full 0 999)"
    "loop_condition ex_mempool (ex_nearly_full 1 1000)"
    by (simp_all add: loop_condition_def ex_mempool_def ex_nearly_full_def)
  then show ?thesis
    by (simp only: addPackageTxs_loop.simps ex_nearly_full_steps flow.case if_True)
qed

text \<open>
  C8. An iteration leaves the loop by \<^verbatim>\<open>break\<close> exactly when its candidate fails the fit
  test, the failure brings the counter of consecutive failures above 1000, and
  \<^verbatim>\<open>nBlockWeight > nBlockMaxWeight - 4000\<close>; the function then returns with the block as it
  was at the head of the iteration. Every failure of the fit test adds one to the counter,
  whether the loop goes on or not, and evicts the candidate if it came from the overlay; an
  iteration that includes a package sets the counter to 0; any other iteration that goes on
  leaves the counter as it is.
\<close>

theorem addPackageTxs_failure_break:
  "(addPackageTxs_body env mempool st = Break st' \<longleftrightarrow>
      (\<exists>it modit mi1. fails_fit env mempool st it modit mi1
         \<and> 1000 <s nConsecutiveFailed st + 1
         \<and> nBlockWeight (assembler st) > ucast (nBlockMaxWeight (assembler st) - 4000)
         \<and> st' = (evict_failed it modit (st\<lparr>mi := mi1\<rparr>))
                   \<lparr>nConsecutiveFailed := nConsecutiveFailed st + 1\<rparr>))
   \<and> (addPackageTxs_body env mempool st = Break st' \<longrightarrow>
        assembler st' = assembler st
        \<and> addPackageTxs_loop (Suc n) env mempool st = Some (Inr st'))
   \<and> (fails_fit env mempool st it modit mi1 \<longrightarrow>
        addPackageTxs_body env mempool st =
          (if 1000 <s nConsecutiveFailed st + 1
              \<and> nBlockWeight (assembler st) > ucast (nBlockMaxWeight (assembler st) - 4000)
           then Break ((evict_failed it modit (st\<lparr>mi := mi1\<rparr>))
                         \<lparr>nConsecutiveFailed := nConsecutiveFailed st + 1\<rparr>)
           else Continue ((evict_failed it modit (st\<lparr>mi := mi1\<rparr>))
                         \<lparr>nConsecutiveFailed := nConsecutiveFailed st + 1\<rparr>)))
   \<and> (selects env mempool st it modit mi1 \<longrightarrow>
        (\<exists>st1. addPackageTxs_body env mempool st = Continue st1 \<and> nConsecutiveFailed st1 = 0))
   \<and> (addPackageTxs_body env mempool st = Continue st2 \<longrightarrow>
        nConsecutiveFailed st2 =
          (if \<exists>it modit mi1. fails_fit env mempool st it modit mi1 then nConsecutiveFailed st + 1
           else if \<exists>it modit mi1. selects env mempool st it modit mi1 then 0
           else nConsecutiveFailed st))"
proof (intro conjI impI)
  show "addPackageTxs_body env mempool st = Break st' \<longleftrightarrow>
      (\<exists>it modit mi1. fails_fit env mempool st it modit mi1
         \<and> 1000 <s nConsecutiveFailed st + 1
         \<and> nBlockWeight (assembler st) > ucast (nBlockMaxWeight (assembler st) - 4000)
         \<and> st' = (evict_failed it modit (st\<lparr>mi := mi1\<rparr>))
                   \<lparr>nConsecutiveFailed := nConsecutiveFailed st + 1\<rparr>)"
    by (rule body_Break)
next
  assume b: "addPackageTxs_body env mempool st = Break st'"
  then obtain it modit mi1 where ff: "fails_fit env mempool st it modit mi1"
    and st': "st' = (evict_failed it modit (st\<lparr>mi := mi1\<rparr>))
                   \<lparr>nConsecutiveFailed := nConsecutiveFailed st + 1\<rparr>"
    unfolding body_Break by blast
  from st' show "assembler st' = assembler st" by (simp add: evict_failed_assembler)
  from ff have "loop_condition mempool st"
    by (auto simp: fails_fit_def dest: choose_candidate_loop_condition)
  with b show "addPackageTxs_loop (Suc n) env mempool st = Some (Inr st')" by simp
next
  assume "fails_fit env mempool st it modit mi1"
  from body_fails_fit[OF this]
  show "addPackageTxs_body env mempool st =
          (if 1000 <s nConsecutiveFailed st + 1
              \<and> nBlockWeight (assembler st) > ucast (nBlockMaxWeight (assembler st) - 4000)
           then Break ((evict_failed it modit (st\<lparr>mi := mi1\<rparr>))
                         \<lparr>nConsecutiveFailed := nConsecutiveFailed st + 1\<rparr>)
           else Continue ((evict_failed it modit (st\<lparr>mi := mi1\<rparr>))
                         \<lparr>nConsecutiveFailed := nConsecutiveFailed st + 1\<rparr>))"
    by (simp add: Let_def)
next
  assume "selects env mempool st it modit mi1"
  from body_selects[OF this]
  show "\<exists>st1. addPackageTxs_body env mempool st = Continue st1 \<and> nConsecutiveFailed st1 = 0"
    by (simp add: include_package_counter)
next
  assume "addPackageTxs_body env mempool st = Continue st2"
  then show "nConsecutiveFailed st2 =
          (if \<exists>it modit mi1. fails_fit env mempool st it modit mi1 then nConsecutiveFailed st + 1
           else if \<exists>it modit mi1. selects env mempool st it modit mi1 then 0
           else nConsecutiveFailed st)"
    by (rule body_Continue_counter)
qed

theorem addPackageTxs_failure_break_witness:
  "addPackageTxs_body ex_env ex_mempool ex_full_state = Break ex_full_after
   \<and> fails_fit ex_env ex_mempool ex_full_state 1 (Some ex_mod_1) 3
   \<and> nConsecutiveFailed ex_full_state = 1000 \<and> nConsecutiveFailed ex_full_after = 1001
   \<and> assembler ex_full_after = assembler ex_full_state
   \<and> addPackageTxs_loop (Suc 0) ex_env ex_mempool ex_full_state = Some (Inr ex_full_after)
   \<and> fails_fit ex_env ex_mempool ex_fail_state 1 (Some ex_mod_1) 3
   \<and> addPackageTxs_body ex_env ex_mempool ex_fail_state = Continue ex_fail_after
   \<and> nConsecutiveFailed ex_fail_state = 5 \<and> nConsecutiveFailed ex_fail_after = 6
   \<and> addPackageTxs_body ex_env ex_mempool (ex_nearly_full 0 999) = Continue (ex_nearly_full 1 1000)
   \<and> addPackageTxs_body ex_env ex_mempool (ex_nearly_full 1 1000) = Break (ex_nearly_full 2 1001)
   \<and> addPackageTxs_loop (Suc (Suc 0)) ex_env ex_mempool (ex_nearly_full 0 999)
        = Some (Inr (ex_nearly_full 2 1001))
   \<and> selects ex_env ex_mempool ex_overlay_state 1 (Some ex_mod_1) 3
   \<and> nConsecutiveFailed ex_overlay_state = 3
   \<and> (\<exists>st1. addPackageTxs_body ex_env ex_mempool ex_overlay_state = Continue st1
            \<and> nConsecutiveFailed st1 = 0)"
proof -
  from addPackageTxs_failure_break[of ex_env ex_mempool ex_full_state ex_full_after 0]
       ex_full_step
  have "assembler ex_full_after = assembler ex_full_state"
    "addPackageTxs_loop (Suc 0) ex_env ex_mempool ex_full_state = Some (Inr ex_full_after)"
    by blast+
  moreover
  from addPackageTxs_failure_break
         [of ex_env ex_mempool ex_overlay_state _ _ 1 "Some ex_mod_1" 3]
       ex_overlay_selects
  have "\<exists>st1. addPackageTxs_body ex_env ex_mempool ex_overlay_state = Continue st1
            \<and> nConsecutiveFailed st1 = 0"
    by blast
  moreover
  from addPackageTxs_failure_break
         [of ex_env ex_mempool ex_fail_state _ _ 1 "Some ex_mod_1" 3 ex_fail_after]
       ex_fail_fit ex_fail_step
  have "nConsecutiveFailed ex_fail_after = nConsecutiveFailed ex_fail_state + 1"
    by (auto split: if_splits)
  moreover
  from addPackageTxs_failure_break
         [of ex_env ex_mempool "ex_nearly_full 0 999" _ _ 1 None 1 "ex_nearly_full 1 1000"]
       ex_nearly_full_fit(1) ex_nearly_full_steps(1)
  have "nConsecutiveFailed (ex_nearly_full 1 1000)
          = nConsecutiveFailed (ex_nearly_full 0 999) + 1"
    by (auto split: if_splits)
  ultimately show ?thesis
    using ex_full_step ex_full_fit ex_overlay_selects ex_fail_fit ex_fail_step
      ex_nearly_full_steps ex_nearly_full_run
    by (simp add: ex_full_state_def ex_full_after_def ex_overlay_state_def ex_fail_state_def
          ex_fail_after_def)
qed

end
